theory Spec2Isabelle
  imports Main
begin

section \<open>JavaScript strings\<close>

text \<open>
  A source text is a \<^typ>\<open>string\<close>; a character stands for one UTF-16 code unit below 256
  (the Latin-1 range), which covers every character the patterns of the sources name.
  \<open>isWhiteSpace\<close> is the set that both the pattern class \<open>\s\<close> and \<open>String.prototype.trim\<close>
  use (white space and line terminators) in that range; \<open>isWordChar\<close> is \<open>\w\<close>;
  \<open>isLineTerminator\<close> is what the pattern \<open>.\<close> refuses.
\<close>

definition isWhiteSpace :: "char \<Rightarrow> bool" where
  "isWhiteSpace c = ((of_char c :: nat) \<in> {9, 10, 11, 12, 13, 32, 160})"

definition isLineTerminator :: "char \<Rightarrow> bool" where
  "isLineTerminator c = ((of_char c :: nat) \<in> {10, 13})"

definition isWordChar :: "char \<Rightarrow> bool" where
  "isWordChar c =
     (let n = (of_char c :: nat)
      in (48 \<le> n \<and> n \<le> 57) \<or> (65 \<le> n \<and> n \<le> 90) \<or> n = 95 \<or> (97 \<le> n \<and> n \<le> 122))"

definition dquote :: char where
  "dquote = CHR 0x22"

definition squote :: char where
  "squote = CHR 0x27"

definition newline :: char where
  "newline = CHR 0x0A"

text \<open>\<open>s.trim()\<close>\<close>

definition trim :: "string \<Rightarrow> string" where
  "trim s = rev (dropWhile isWhiteSpace (rev (dropWhile isWhiteSpace s)))"

text \<open>\<open>s.split(c)\<close> for a one-character separator: \<open>"".split(c)\<close> is \<open>[""]\<close>.\<close>

fun str_split :: "char \<Rightarrow> string \<Rightarrow> string list" where
  "str_split sep [] = [[]]"
| "str_split sep (c # cs) =
     (if c = sep then [] # str_split sep cs
      else (case str_split sep cs of [] \<Rightarrow> [[c]] | w # ws \<Rightarrow> (c # w) # ws))"

text \<open>\<open>s.startsWith(p)\<close> and \<open>s.includes(p)\<close>\<close>

definition startsWith :: "string \<Rightarrow> string \<Rightarrow> bool" where
  "startsWith s p = (take (length p) s = p)"

fun str_includes :: "string \<Rightarrow> string \<Rightarrow> bool" where
  "str_includes [] p = (p = [])"
| "str_includes (c # cs) p = (startsWith (c # cs) p \<or> str_includes cs p)"

text \<open>\<open>s.indexOf(c)\<close> and \<open>s.lastIndexOf(c)\<close> for one character: \<open>-1\<close> when it is absent.\<close>

fun indexOf :: "string \<Rightarrow> char \<Rightarrow> int" where
  "indexOf [] c = -1"
| "indexOf (x # xs) c =
     (if x = c then 0 else (let i = indexOf xs c in if i < 0 then -1 else i + 1))"

definition lastIndexOf :: "string \<Rightarrow> char \<Rightarrow> int" where
  "lastIndexOf s c =
     (let i = indexOf (rev s) c in if i < 0 then -1 else int (length s) - 1 - i)"

text \<open>
  \<open>s.substring(a, b)\<close>: both ends are clamped to \<open>0 .. s.length\<close> and swapped when the
  first is the larger.
\<close>

definition substring :: "string \<Rightarrow> int \<Rightarrow> int \<Rightarrow> string" where
  "substring s a b =
     (let len = int (length s);
          a' = min (max a 0) len;
          b' = min (max b 0) len;
          from = min a' b';
          to = max a' b'
      in take (nat (to - from)) (drop (nat from) s))"

text \<open>\<open>s.replace(/c/g, '')\<close> for a one-character pattern: every occurrence is removed.\<close>

definition removeAll_char :: "char \<Rightarrow> string \<Rightarrow> string" where
  "removeAll_char c s = filter (\<lambda>x. x \<noteq> c) s"

section \<open>The regular expressions of the sources\<close>

text \<open>
  Every pattern of the sources is a sequence of items, and every item is one character
  class, or one character class under \<open>*\<close>, \<open>+\<close>, \<open>*?\<close>, or a capture group around one such
  item. No pattern has an alternative, an optional group or a group under a quantifier, so
  every group takes part in every match.

  \<open>[^]\<close> is \<open>CNot []\<close>, \<open>[\s\S]\<close> is \<open>CSet [CSpace, CNonSpace]\<close>, \<open>[^,\s]\<close> is
  \<open>CNot [CChar CHR '','', CSpace]\<close>.
\<close>

datatype cclass =
    CChar char
  | CSpace
  | CNonSpace
  | CWord
  | CDot
  | CSet "cclass list"
  | CNot "cclass list"

fun cmatches :: "cclass \<Rightarrow> char \<Rightarrow> bool" where
  "cmatches (CChar d) c = (c = d)"
| "cmatches CSpace c = isWhiteSpace c"
| "cmatches CNonSpace c = (\<not> isWhiteSpace c)"
| "cmatches CWord c = isWordChar c"
| "cmatches CDot c = (\<not> isLineTerminator c)"
| "cmatches (CSet ks) c = list_ex (\<lambda>k. cmatches k c) ks"
| "cmatches (CNot ks) c = (\<not> list_ex (\<lambda>k. cmatches k c) ks)"

text \<open>
  \<open>Rep k lo greedy\<close> is the class \<open>k\<close> repeated at least \<open>lo\<close> times (\<open>*\<close> is \<open>lo = 0\<close>, \<open>+\<close> is
  \<open>lo = 1\<close>), greedy or lazy (\<open>*?\<close>).
\<close>

datatype item =
    Chr cclass
  | Rep cclass nat bool
  | Grp item

definition lit :: "string \<Rightarrow> item list" where
  "lit s = map (\<lambda>c. Chr (CChar c)) s"

text \<open>
  The lengths an item may consume at the head of \<open>s\<close>, in the order the backtracking
  matcher tries them: a greedy repetition tries the longest run first, a lazy one the
  shortest.
\<close>

fun cands :: "item \<Rightarrow> string \<Rightarrow> nat list" where
  "cands (Chr k) s = (case s of [] \<Rightarrow> [] | c # _ \<Rightarrow> if cmatches k c then [1] else [])"
| "cands (Rep k lo greedy) s =
     (let hi = length (takeWhile (cmatches k) s);
          ns = [lo ..< Suc hi]
      in if greedy then rev ns else ns)"
| "cands (Grp it) s = cands it s"

fun is_group :: "item \<Rightarrow> bool" where
  "is_group (Grp _) = True"
| "is_group _ = False"

fun first_some :: "('a \<Rightarrow> 'b option) \<Rightarrow> 'a list \<Rightarrow> 'b option" where
  "first_some f [] = None"
| "first_some f (x # xs) = (case f x of Some y \<Rightarrow> Some y | None \<Rightarrow> first_some f xs)"

text \<open>
  The match of a pattern anchored at the head of \<open>s\<close>: the captured groups in order and
  the number of characters the whole match consumed, for the first alternative that
  succeeds.
\<close>

fun rmatch :: "item list \<Rightarrow> string \<Rightarrow> (string list \<times> nat) option" where
  "rmatch [] s = Some ([], 0)"
| "rmatch (it # its) s =
     first_some
       (\<lambda>n. case rmatch its (drop n s) of
               None \<Rightarrow> None
             | Some (caps, len) \<Rightarrow> Some ((if is_group it then [take n s] else []) @ caps, n + len))
       (cands it s)"

text \<open>
  A match as \<open>RegExp.prototype.exec\<close> returns it: \<open>m.index\<close>, \<open>m[0]\<close> and the groups
  \<open>m[1], m[2], ...\<close>. \<open>group m k\<close> is \<open>m[k]\<close>, \<open>None\<close> being \<open>undefined\<close>.
\<close>

record rx_match =
  index :: nat
  matched :: string
  groups :: "string list"

definition group :: "rx_match \<Rightarrow> nat \<Rightarrow> string option" where
  "group m k =
     (if k = 0 then Some (matched m)
      else if k \<le> length (groups m) then Some (groups m ! (k - 1))
      else None)"

text \<open>The leftmost match that starts at position \<open>i\<close> or later.\<close>

definition search_from :: "item list \<Rightarrow> string \<Rightarrow> nat \<Rightarrow> rx_match option" where
  "search_from r s i =
     first_some
       (\<lambda>p. case rmatch r (drop p s) of
               None \<Rightarrow> None
             | Some (caps, len) \<Rightarrow>
                 Some \<lparr>index = p, matched = take len (drop p s), groups = caps\<rparr>)
       [i ..< Suc (length s)]"

text \<open>\<open>r.exec(s)\<close> and \<open>s.match(r)\<close> for a pattern without the \<open>g\<close> flag.\<close>

definition exec :: "item list \<Rightarrow> string \<Rightarrow> rx_match option" where
  "exec r s = search_from r s 0"

text \<open>
  A pattern object with the \<open>g\<close> flag carries \<open>lastIndex\<close>. \<open>regexp_exec\<close> is
  \<open>pattern.exec(s)\<close> on such an object: it searches from \<open>lastIndex\<close>, sets \<open>lastIndex\<close> to the
  end of the match, and resets it to 0 when there is none (also when \<open>lastIndex\<close> is past the
  end of \<open>s\<close>).
\<close>

record regexp =
  source :: "item list"
  lastIndex :: nat

definition new_regexp :: "item list \<Rightarrow> regexp" where
  "new_regexp r = \<lparr>source = r, lastIndex = 0\<rparr>"

definition regexp_exec :: "regexp \<Rightarrow> string \<Rightarrow> rx_match option \<times> regexp" where
  "regexp_exec pattern s =
     (case search_from (source pattern) s (lastIndex pattern) of
        None \<Rightarrow> (None, pattern\<lparr>lastIndex := 0\<rparr>)
      | Some m \<Rightarrow> (Some m, pattern\<lparr>lastIndex := index m + length (matched m)\<rparr>))"

lemma first_some_SomeD:
  "first_some f xs = Some y \<Longrightarrow> \<exists>x \<in> set xs. f x = Some y"
  by (induction xs) (auto split: option.splits)

lemma first_some_None_iff:
  "first_some f xs = None \<longleftrightarrow> (\<forall>x \<in> set xs. f x = None)"
  by (induction xs) (auto split: option.splits)

lemma search_from_bounds:
  assumes "search_from r s i = Some m"
  shows "i \<le> index m" and "index m \<le> length s"
    and "\<exists>caps len. rmatch r (drop (index m) s) = Some (caps, len)
           \<and> matched m = take len (drop (index m) s) \<and> groups m = caps"
proof -
  from assms obtain p where p: "p \<in> set [i ..< Suc (length s)]"
    and m: "(case rmatch r (drop p s) of
               None \<Rightarrow> None
             | Some (caps, len) \<Rightarrow>
                 Some \<lparr>index = p, matched = take len (drop p s), groups = caps\<rparr>) = Some m"
    unfolding search_from_def by (blast dest: first_some_SomeD)
  from m obtain caps len where r: "rmatch r (drop p s) = Some (caps, len)"
    and m': "m = \<lparr>index = p, matched = take len (drop p s), groups = caps\<rparr>"
    by (auto split: option.splits)
  from p m' show "i \<le> index m" and "index m \<le> length s" by auto
  from r m' show "\<exists>caps len. rmatch r (drop (index m) s) = Some (caps, len)
           \<and> matched m = take len (drop (index m) s) \<and> groups m = caps" by auto
qed

section \<open>The direct-text extractor, first listing of \<open>src/cli/parser.ts\<close>\<close>

text \<open>
  The file \<open>src/cli/parser.ts\<close> holds two listings of the parser: the first (lines 1-250)
  builds untyped objects and parses the attributes of a property, the second (lines 251-450)
  declares interfaces for what it returns. Both define \<open>findMatchesInSource\<close>,
  \<open>parseDirectModels\<close>, \<open>parseDirectScreens\<close>, \<open>parseDirectApi\<close> and \<open>processFinAppFile\<close>; the
  functions of the second listing carry the suffix \<open>2\<close> here.

  \<open>findMatchesInSource\<close> is only called with pattern literals that carry the \<open>g\<close> flag, each
  a fresh object (\<open>new_regexp\<close>). The loop threads the pattern object, whose \<open>lastIndex\<close>
  \<open>exec\<close> reads and writes, and the array of matches.
\<close>

record src_match =
  match_start :: nat
  match_end :: nat
  match_text :: string

function findMatches_loop :: "string \<Rightarrow> regexp \<Rightarrow> src_match list \<Rightarrow> src_match list \<times> regexp" where
  "findMatches_loop sourceText pattern matches =
     (case regexp_exec pattern sourceText of
        (None, pattern') \<Rightarrow> (matches, pattern')
      | (Some m, pattern') \<Rightarrow>
          (let t = matched m;
               start = index m;
               en = start + length t;
               matches' = matches @ [\<lparr>match_start = start, match_end = en, match_text = t\<rparr>];
               pattern'' = (if index m = lastIndex pattern'
                            then pattern'\<lparr>lastIndex := lastIndex pattern' + 1\<rparr>
                            else pattern')
           in findMatches_loop sourceText pattern'' matches'))"
  by pat_completeness auto
termination
proof (relation "measure (\<lambda>(s, p, ms). Suc (length s) - lastIndex p)", goal_cases)
  case 1
  show ?case by simp
next
  case (2 sourceText pattern matches x1 x2 m t start en matches' pattern'')
  from 2 have sf: "search_from (source pattern) sourceText (lastIndex pattern) = Some m"
    and x2: "x2 = pattern\<lparr>lastIndex := index m + length (matched m)\<rparr>"
    by (auto simp: regexp_exec_def split: option.splits)
  from search_from_bounds(1,2)[OF sf]
  have b: "lastIndex pattern \<le> index m" "index m \<le> length sourceText" .
  have "lastIndex pattern < lastIndex pattern''"
  proof (cases "matched m")
    case Nil
    with 2(3-) x2 b show ?thesis by simp
  next
    case (Cons c cs)
    with 2(3-) x2 b show ?thesis by simp
  qed
  with b show ?case by simp
qed

declare findMatches_loop.simps [simp del]

definition findMatchesInSource :: "string \<Rightarrow> regexp \<Rightarrow> src_match list" where
  "findMatchesInSource sourceText pattern = fst (findMatches_loop sourceText pattern [])"

text \<open>
  What a statement of the sources can throw: \<open>TypeError\<close> is a method call on \<open>undefined\<close>
  (or a value \<open>JSON.stringify\<close> cannot write), \<open>Error msg\<close> is \<open>throw new Error(msg)\<close>,
  \<open>SystemError code\<close> is the error of a file-system call with its code (\<open>ENOENT\<close>, \<open>EACCES\<close>, ...).
\<close>

datatype error = TypeError | Error string | SystemError string

text \<open>
  A value read from a match array (\<open>m[k]\<close>) is a string or \<open>undefined\<close>; so are the fields
  that hold one. The constant \<open>$type\<close> tags of the objects are left out.
\<close>

record property =
  prop_name :: "string option"
  prop_type :: "string option"
  isRequired :: bool
  attributes :: string
  enumValues :: "string list option"
  defaultValue :: "string option"

record model =
  model_name :: "string option"
  properties :: "property list"

text \<open>\<open>/model\s+(\w+)\s*{([^}]*)}/g\<close>\<close>

definition modelBlockRe :: "item list" where
  "modelBlockRe =
     lit ''model'' @ [Rep CSpace 1 True, Grp (Rep CWord 1 True), Rep CSpace 0 True,
       Chr (CChar CHR ''{''), Grp (Rep (CNot [CChar CHR ''}'']) 0 True), Chr (CChar CHR ''}'')]"

text \<open>\<open>/model\s+(\w+)\s*{/\<close>\<close>

definition modelNameRe :: "item list" where
  "modelNameRe =
     lit ''model'' @ [Rep CSpace 1 True, Grp (Rep CWord 1 True), Rep CSpace 0 True,
       Chr (CChar CHR ''{'')]"

text \<open>\<open>/(\w+)\s*:\s*(\w+)(.*)/\<close>\<close>

definition propRe :: "item list" where
  "propRe =
     [Grp (Rep CWord 1 True), Rep CSpace 0 True, Chr (CChar CHR '':''), Rep CSpace 0 True,
      Grp (Rep CWord 1 True), Grp (Rep CDot 0 True)]"

text \<open>\<open>/enum\s*:\s*\[(.*?)\]/\<close>\<close>

definition enumRe :: "item list" where
  "enumRe =
     lit ''enum'' @ [Rep CSpace 0 True, Chr (CChar CHR '':''), Rep CSpace 0 True,
       Chr (CChar CHR ''[''), Grp (Rep CDot 0 False), Chr (CChar CHR '']'')]"

text \<open>\<open>/default\s*:\s*([^,\s]+)/\<close>\<close>

definition defaultRe :: "item list" where
  "defaultRe =
     lit ''default'' @ [Rep CSpace 0 True, Chr (CChar CHR '':''), Rep CSpace 0 True,
       Grp (Rep (CNot [CChar CHR '','', CSpace]) 1 True)]"

text \<open>
  The body of the loop over the property lines: \<open>Inr None\<close> is \<open>continue\<close>.
  \<open>propMatch[3].trim()\<close> and \<open>enumMatch[1].split(',')\<close> are method calls on a group.
\<close>

definition parsePropertyLine :: "string \<Rightarrow> error + property option" where
  "parsePropertyLine line =
     (case exec propRe line of
        None \<Rightarrow> Inr None
      | Some propMatch \<Rightarrow>
          (case group propMatch 3 of
             None \<Rightarrow> Inl TypeError
           | Some g3 \<Rightarrow>
               (let propName = group propMatch 1;
                    propType = group propMatch 2;
                    attrs = trim g3
                in case (case exec enumRe attrs of
                           None \<Rightarrow> Inr []
                         | Some enumMatch \<Rightarrow>
                             (case group enumMatch 1 of
                                None \<Rightarrow> Inl TypeError
                              | Some g1 \<Rightarrow>
                                  Inr (map (\<lambda>v. removeAll_char dquote (removeAll_char squote (trim v)))
                                         (str_split CHR '','' g1)))) of
                     Inl e \<Rightarrow> Inl e
                   | Inr enumVals \<Rightarrow>
                       (let dflt = (case exec defaultRe attrs of
                                      None \<Rightarrow> None
                                    | Some defaultMatch \<Rightarrow> group defaultMatch 1)
                        in Inr (Some \<lparr>prop_name = propName, prop_type = propType,
                                       isRequired = str_includes attrs ''required'',
                                       attributes = attrs,
                                       enumValues = (if length enumVals > 0 then Some enumVals else None),
                                       defaultValue = dflt\<rparr>)))))"

fun parsePropertyLines :: "string list \<Rightarrow> error + property list" where
  "parsePropertyLines [] = Inr []"
| "parsePropertyLines (line # rest) =
     (case parsePropertyLine line of
        Inl e \<Rightarrow> Inl e
      | Inr None \<Rightarrow> parsePropertyLines rest
      | Inr (Some p) \<Rightarrow>
          (case parsePropertyLines rest of Inl e \<Rightarrow> Inl e | Inr ps \<Rightarrow> Inr (p # ps)))"

text \<open>
  \<open>propertiesText.split('\n').map(line => line.trim()).filter(line => line.length > 0 &&
  !line.startsWith('//'))\<close>
\<close>

definition propertyLines :: "string \<Rightarrow> string list" where
  "propertyLines propertiesText =
     filter (\<lambda>line. length line > 0 \<and> \<not> startsWith line ''//'')
       (map trim (str_split newline propertiesText))"

text \<open>The body of the loop over the model matches: \<open>Inr None\<close> is \<open>continue\<close>.\<close>

definition parseModelMatch :: "src_match \<Rightarrow> error + model option" where
  "parseModelMatch m =
     (case exec modelNameRe (match_text m) of
        None \<Rightarrow> Inr None
      | Some nameMatch \<Rightarrow>
          (let name = group nameMatch 1;
               propertiesText =
                 substring (match_text m) (indexOf (match_text m) CHR ''{'' + 1)
                   (lastIndexOf (match_text m) CHR ''}'')
           in case parsePropertyLines (propertyLines propertiesText) of
                Inl e \<Rightarrow> Inl e
              | Inr props \<Rightarrow> Inr (Some \<lparr>model_name = name, properties = props\<rparr>)))"

fun parseModelMatches :: "src_match list \<Rightarrow> error + model list" where
  "parseModelMatches [] = Inr []"
| "parseModelMatches (m # ms) =
     (case parseModelMatch m of
        Inl e \<Rightarrow> Inl e
      | Inr None \<Rightarrow> parseModelMatches ms
      | Inr (Some x) \<Rightarrow>
          (case parseModelMatches ms of Inl e \<Rightarrow> Inl e | Inr xs \<Rightarrow> Inr (x # xs)))"

definition parseDirectModels :: "string \<Rightarrow> error + model list" where
  "parseDirectModels sourceText =
     parseModelMatches (findMatchesInSource sourceText (new_regexp modelBlockRe))"

text \<open>
  The screens of the first listing: every matched block gives a screen with the fixed
  values \<open>isInitial: false\<close>, \<open>title: name\<close> and an empty stack layout.
\<close>

record layout =
  layout_type :: string
  components :: "string list"

record screen =
  screen_name :: "string option"
  screen_isInitial :: bool
  screen_title :: "string option"
  screen_layout :: layout

text \<open>\<open>/screen\s+(\w+)\s*{([^]*?)}/g\<close>\<close>

definition screenBlockRe :: "item list" where
  "screenBlockRe =
     lit ''screen'' @ [Rep CSpace 1 True, Grp (Rep CWord 1 True), Rep CSpace 0 True,
       Chr (CChar CHR ''{''), Grp (Rep (CNot []) 0 False), Chr (CChar CHR ''}'')]"

text \<open>\<open>/screen\s+(\w+)\s*{/\<close>\<close>

definition screenNameRe :: "item list" where
  "screenNameRe =
     lit ''screen'' @ [Rep CSpace 1 True, Grp (Rep CWord 1 True), Rep CSpace 0 True,
       Chr (CChar CHR ''{'')]"

definition parseScreenMatch :: "src_match \<Rightarrow> screen option" where
  "parseScreenMatch m =
     (case exec screenNameRe (match_text m) of
        None \<Rightarrow> None
      | Some nameMatch \<Rightarrow>
          (let name = group nameMatch 1
           in Some \<lparr>screen_name = name, screen_isInitial = False, screen_title = name,
                     screen_layout = \<lparr>layout_type = ''stack'', components = []\<rparr>\<rparr>))"

definition parseDirectScreens :: "string \<Rightarrow> screen list" where
  "parseDirectScreens sourceText =
     List.map_filter parseScreenMatch (findMatchesInSource sourceText (new_regexp screenBlockRe))"

text \<open>
  The API of the first listing. \<open>/api\s*{[\s\S]*?baseUrl\s*:\s*"([^"]+)"[\s\S]*?}/\<close> and
  \<open>/endpoint\s+(\w+)\s*{[\s\S]*?path\s*:\s*"([^"]+)"[\s\S]*?method\s*:\s*(\w+)/g\<close>.
\<close>

definition anyChar :: cclass where
  "anyChar = CSet [CSpace, CNonSpace]"

definition apiRe :: "item list" where
  "apiRe =
     lit ''api'' @ [Rep CSpace 0 True, Chr (CChar CHR ''{''), Rep anyChar 0 False]
     @ lit ''baseUrl'' @ [Rep CSpace 0 True, Chr (CChar CHR '':''), Rep CSpace 0 True,
       Chr (CChar dquote), Grp (Rep (CNot [CChar dquote]) 1 True), Chr (CChar dquote),
       Rep anyChar 0 False, Chr (CChar CHR ''}'')]"

definition endpointRegex :: "item list" where
  "endpointRegex =
     lit ''endpoint'' @ [Rep CSpace 1 True, Grp (Rep CWord 1 True), Rep CSpace 0 True,
       Chr (CChar CHR ''{''), Rep anyChar 0 False]
     @ lit ''path'' @ [Rep CSpace 0 True, Chr (CChar CHR '':''), Rep CSpace 0 True,
       Chr (CChar dquote), Grp (Rep (CNot [CChar dquote]) 1 True), Chr (CChar dquote),
       Rep anyChar 0 False]
     @ lit ''method'' @ [Rep CSpace 0 True, Chr (CChar CHR '':''), Rep CSpace 0 True,
       Grp (Rep CWord 1 True)]"

record endpoint =
  endpoint_id :: "string option"
  endpoint_path :: "string option"
  endpoint_method :: "string option"

record api =
  api_baseUrl :: string
  api_endpoints :: "endpoint list"

text \<open>The least number of characters an item consumes.\<close>

fun item_min :: "item \<Rightarrow> nat" where
  "item_min (Chr k) = 1"
| "item_min (Rep k lo greedy) = lo"
| "item_min (Grp it) = item_min it"

lemma cands_bounds:
  "n \<in> set (cands it s) \<Longrightarrow> item_min it \<le> n \<and> n \<le> length s"
proof (induction it)
  case (Chr k)
  then show ?case by (cases s) (auto split: if_splits)
next
  case (Rep k lo greedy)
  have "length (takeWhile (cmatches k) s) \<le> length s"
    by (rule length_takeWhile_le)
  with Rep show ?case by (auto simp: Let_def split: if_splits)
next
  case (Grp it)
  then show ?case by simp
qed

lemma rmatch_ConsD:
  assumes "rmatch (it # its) s = Some (caps, len)"
  obtains n caps' len' where "n \<in> set (cands it s)"
    and "rmatch its (drop n s) = Some (caps', len')"
    and "caps = (if is_group it then [take n s] else []) @ caps'"
    and "len = n + len'"
proof -
  from assms obtain n where n: "n \<in> set (cands it s)"
    and c: "(case rmatch its (drop n s) of
               None \<Rightarrow> None
             | Some (caps, len) \<Rightarrow>
                 Some ((if is_group it then [take n s] else []) @ caps, n + len))
            = Some (caps, len)"
    by (auto dest: first_some_SomeD)
  from c obtain caps' len' where "rmatch its (drop n s) = Some (caps', len')"
    and "caps = (if is_group it then [take n s] else []) @ caps'" and "len = n + len'"
    by (auto split: option.splits)
  with n that show thesis by blast
qed

lemma rmatch_len:
  "rmatch r s = Some (caps, len) \<Longrightarrow> sum_list (map item_min r) \<le> len \<and> len \<le> length s"
proof (induction r arbitrary: s caps len)
  case Nil
  then show ?case by simp
next
  case (Cons it its)
  from Cons.prems obtain n caps' len' where n: "n \<in> set (cands it s)"
    and r: "rmatch its (drop n s) = Some (caps', len')" and l: "len = n + len'"
    by (rule rmatch_ConsD)
  from cands_bounds[OF n] have "item_min it \<le> n" "n \<le> length s" by simp_all
  moreover from Cons.IH[OF r] have "sum_list (map item_min its) \<le> len'" "len' \<le> length s - n"
    by simp_all
  ultimately show ?case using l by simp
qed

lemma rmatch_groups:
  "rmatch r s = Some (caps, len) \<Longrightarrow>
     list_all2 (\<lambda>it c. item_min it \<le> length c) (filter is_group r) caps"
proof (induction r arbitrary: s caps len)
  case Nil
  then show ?case by simp
next
  case (Cons it its)
  from Cons.prems obtain n caps' len' where n: "n \<in> set (cands it s)"
    and r: "rmatch its (drop n s) = Some (caps', len')"
    and c: "caps = (if is_group it then [take n s] else []) @ caps'"
    by (rule rmatch_ConsD)
  from cands_bounds[OF n] have "item_min it \<le> length (take n s)" by simp
  with Cons.IH[OF r] c show ?case by simp
qed

lemma search_from_matched:
  assumes "search_from r s i = Some m"
  shows "sum_list (map item_min r) \<le> length (matched m)"
    and "index m + length (matched m) \<le> length s"
    and "list_all2 (\<lambda>it c. item_min it \<le> length c) (filter is_group r) (groups m)"
proof -
  from search_from_bounds(3)[OF assms] obtain caps len
    where r: "rmatch r (drop (index m) s) = Some (caps, len)"
      and m: "matched m = take len (drop (index m) s)" and g: "groups m = caps"
    by blast
  from rmatch_len[OF r] have l: "sum_list (map item_min r) \<le> len" "len \<le> length s - index m"
    by simp_all
  from l m show "sum_list (map item_min r) \<le> length (matched m)" by simp
  from l m search_from_bounds(2)[OF assms] show "index m + length (matched m) \<le> length s" by simp
  from rmatch_groups[OF r] g
  show "list_all2 (\<lambda>it c. item_min it \<le> length c) (filter is_group r) (groups m)" by simp
qed

lemma endpointRegex_min: "sum_list (map item_min endpointRegex) = 27"
  by (simp add: endpointRegex_def lit_def)

text \<open>
  The \<open>while\<close> loop of \<open>parseDirectApi\<close> over \<open>endpointRegex.exec(sourceText)\<close>; its second
  argument is \<open>endpointRegex.lastIndex\<close>. The loop has no step for an empty match: it ends
  because no match of \<open>endpointRegex\<close> is empty.
\<close>

function endpointLoop :: "string \<Rightarrow> nat \<Rightarrow> endpoint list \<Rightarrow> endpoint list" where
  "endpointLoop sourceText li endpointMatches =
     (case regexp_exec \<lparr>source = endpointRegex, lastIndex = li\<rparr> sourceText of
        (None, re') \<Rightarrow> endpointMatches
      | (Some m, re') \<Rightarrow>
          endpointLoop sourceText (lastIndex re')
            (endpointMatches @
               [\<lparr>endpoint_id = group m 1, endpoint_path = group m 2,
                 endpoint_method = group m 3\<rparr>]))"
  by pat_completeness auto
termination
proof (relation "measure (\<lambda>(s, li, acc). Suc (length s) - li)", goal_cases)
  case 1
  show ?case by simp
next
  case (2 sourceText li endpointMatches x1 x2 m)
  from 2 have sf: "search_from endpointRegex sourceText li = Some m"
    and x2: "lastIndex x2 = index m + length (matched m)"
    by (auto simp: regexp_exec_def split: option.splits)
  from search_from_bounds(1,2)[OF sf] have "li \<le> index m" "index m \<le> length sourceText" .
  moreover from search_from_matched(1)[OF sf] have "27 \<le> length (matched m)"
    by (simp add: endpointRegex_min)
  ultimately show ?case using x2 by simp
qed

declare endpointLoop.simps [simp del]

definition parseDirectApi :: "string \<Rightarrow> api option" where
  "parseDirectApi sourceText =
     (case exec apiRe sourceText of
        None \<Rightarrow> None
      | Some apiSection \<Rightarrow>
          (case group apiSection 1 of
             None \<Rightarrow> None
           | Some baseUrl \<Rightarrow>
               if baseUrl = [] then None
               else Some \<lparr>api_baseUrl = baseUrl,
                           api_endpoints = endpointLoop sourceText 0 []\<rparr>))"

section \<open>The syntax tree of the grammar\<close>

text \<open>
  The nodes of the grammar \<open>FinanceAppDSL\<close>, with the fields that \<open>checkApp\<close>, \<open>checkModel\<close>,
  \<open>checkNavigation\<close>, \<open>checkAPI\<close> and the reconciler read (the parameters and the layout of a
  screen, the theme and the mock data are left out; \<open>checkScreen\<close> is not modelled). An array
  field of a node is always an array (possibly empty); an optional node is an \<open>option\<close>. A
  cross-reference (\<open>screen=[Screen:ID]\<close>) holds the text written and the screen it resolves
  to, if any. A number literal is kept as its text.
\<close>

record ast_dataType =
  dt_name :: string
  dt_isArray :: bool

datatype ast_value =
    StringValue string
  | NumberValue string
  | BooleanValue string
  | NullValue

record ast_enumValue =
  ev_value :: string

datatype ast_feature =
    RequiredFeature
  | DefaultValueFeature ast_value
  | EnumValuesFeature "ast_enumValue list"

record ast_property =
  ap_name :: string
  ap_type :: ast_dataType
  ap_features :: "ast_feature list"

record ast_model =
  am_name :: string
  am_properties :: "ast_property list"

record ast_screen =
  as_name :: string
  as_title :: string
  as_isInitial :: bool

record ast_reference =
  refText :: string
  ref :: "ast_screen option"

record ast_navItem =
  ni_title :: string
  ni_icon :: "string option"
  ni_screen :: ast_reference

record ast_navigation =
  nav_type :: string
  nav_items :: "ast_navItem list"

record ast_apiParameter =
  par_name :: string
  par_type :: ast_dataType
  par_isRequired :: bool

record ast_responseTypeRef =
  rt_type :: string
  rt_isArray :: bool

record ast_endpoint =
  ep_id :: string
  ep_path :: string
  ep_method :: string
  ep_params :: "ast_apiParameter list option"
  ep_body :: "string option"
  ep_response :: ast_responseTypeRef

record ast_api =
  aa_baseUrl :: string
  aa_isMock :: bool
  aa_endpoints :: "ast_endpoint list"

record ast_app =
  app_name :: string
  app_displayName :: string
  app_appId :: string
  app_version :: string
  app_platforms :: "string list"
  app_models :: "ast_model list"
  app_screens :: "ast_screen list"
  app_navigation :: "ast_navigation option"
  app_api :: "ast_api option"

section \<open>The reconciler, first listing\<close>







section \<open>The direct-text extractor and the reconciler, second listing of \<open>src/cli/parser.ts\<close>\<close>

text \<open>
  The second listing declares the interfaces \<open>Model\<close>, \<open>Property\<close>, \<open>Screen\<close>, \<open>API\<close> and \<open>App\<close>;
  its \<open>findMatchesInSource\<close> is the one of the first listing. \<open>truthy\<close> is the test of
  \<open>if (!x)\<close> and of \<open>x || d\<close> on a string or \<open>undefined\<close>.
\<close>

record property2 =
  property2_name :: string
  property2_type :: string

record model2 =
  model2_name :: string
  model2_properties :: "property2 list"

record screen2 =
  screen2_name :: string
  screen2_isInitial :: bool
  screen2_title :: string

record endpoint2 =
  endpoint2_name :: string
  endpoint2_path :: string
  endpoint2_method :: string

record api2 =
  api2_baseUrl :: "string option"
  api2_endpoints :: "endpoint2 list"


definition truthy :: "string option \<Rightarrow> bool" where
  "truthy x = (case x of None \<Rightarrow> False | Some s \<Rightarrow> s \<noteq> [])"

text \<open>\<open>x || d\<close>\<close>

definition or_else :: "string option \<Rightarrow> string \<Rightarrow> string" where
  "or_else x d = (case x of None \<Rightarrow> d | Some s \<Rightarrow> if s = [] then d else s)"

text \<open>\<open>s.match(r)?.[1]\<close> for a pattern without the \<open>g\<close> flag.\<close>

definition match_group1 :: "item list \<Rightarrow> string \<Rightarrow> string option" where
  "match_group1 r s = (case exec r s of None \<Rightarrow> None | Some m \<Rightarrow> group m 1)"

text \<open>\<open>/model\s+(\w+)/\<close> and \<open>/{([^}]*)}/\<close>\<close>

definition modelNameRe2 :: "item list" where
  "modelNameRe2 = lit ''model'' @ [Rep CSpace 1 True, Grp (Rep CWord 1 True)]"

definition bodyRe2 :: "item list" where
  "bodyRe2 = [Chr (CChar CHR ''{''), Grp (Rep (CNot [CChar CHR ''}'']) 0 True), Chr (CChar CHR ''}'')]"

text \<open>
  \<open>const [propName, propType] = line.split(':').map(s => s.trim())\<close>: the first two parts,
  \<open>undefined\<close> where the line has fewer.
\<close>

definition parsePropertyLine2 :: "string \<Rightarrow> property2 option" where
  "parsePropertyLine2 line =
     (let parts = map trim (str_split CHR '':'' line);
          propName = (case parts of [] \<Rightarrow> None | a # _ \<Rightarrow> Some a);
          propType = (case parts of a # b # _ \<Rightarrow> Some b | _ \<Rightarrow> None)
      in if \<not> truthy propName \<or> \<not> truthy propType then None
         else Some \<lparr>property2_name = or_else propName [], property2_type = or_else propType []\<rparr>)"

definition parseModelMatch2 :: "src_match \<Rightarrow> model2 option" where
  "parseModelMatch2 m =
     (let name = match_group1 modelNameRe2 (match_text m)
      in if \<not> truthy name then None
         else (let propertiesText = match_group1 bodyRe2 (match_text m)
               in if \<not> truthy propertiesText then None
                  else Some \<lparr>model2_name = or_else name [],
                              model2_properties =
                                List.map_filter parsePropertyLine2
                                  (propertyLines (or_else propertiesText []))\<rparr>))"

definition parseDirectModels2 :: "string \<Rightarrow> model2 list" where
  "parseDirectModels2 sourceText =
     List.map_filter parseModelMatch2 (findMatchesInSource sourceText (new_regexp modelBlockRe))"

text \<open>\<open>/screen\s+(\w+)/\<close> and \<open>/title\s*:\s*"([^"]+)"/\<close>\<close>

definition screenNameRe2 :: "item list" where
  "screenNameRe2 = lit ''screen'' @ [Rep CSpace 1 True, Grp (Rep CWord 1 True)]"

definition titleRe :: "item list" where
  "titleRe =
     lit ''title'' @ [Rep CSpace 0 True, Chr (CChar CHR '':''), Rep CSpace 0 True,
       Chr (CChar dquote), Grp (Rep (CNot [CChar dquote]) 1 True), Chr (CChar dquote)]"

definition parseScreenMatch2 :: "src_match \<Rightarrow> screen2 option" where
  "parseScreenMatch2 m =
     (let name = match_group1 screenNameRe2 (match_text m)
      in if \<not> truthy name then None
         else (let isInitial = str_includes (match_text m) ''initial'';
                   title = or_else (match_group1 titleRe (match_text m)) (or_else name [])
               in Some \<lparr>screen2_name = or_else name [], screen2_isInitial = isInitial,
                         screen2_title = title\<rparr>))"

definition parseDirectScreens2 :: "string \<Rightarrow> screen2 list" where
  "parseDirectScreens2 sourceText =
     List.map_filter parseScreenMatch2 (findMatchesInSource sourceText (new_regexp screenBlockRe))"

text \<open>
  \<open>/endpoint\s+(\w+)\s*{([^}]*)}/g\<close>, \<open>/endpoint\s+(\w+)/\<close>, \<open>/path\s*:\s*"([^"]+)"/\<close> and
  \<open>/method\s*:\s*(\w+)/\<close>
\<close>

definition endpointBlockRe :: "item list" where
  "endpointBlockRe =
     lit ''endpoint'' @ [Rep CSpace 1 True, Grp (Rep CWord 1 True), Rep CSpace 0 True,
       Chr (CChar CHR ''{''), Grp (Rep (CNot [CChar CHR ''}'']) 0 True), Chr (CChar CHR ''}'')]"

definition endpointNameRe :: "item list" where
  "endpointNameRe = lit ''endpoint'' @ [Rep CSpace 1 True, Grp (Rep CWord 1 True)]"

definition pathRe :: "item list" where
  "pathRe =
     lit ''path'' @ [Rep CSpace 0 True, Chr (CChar CHR '':''), Rep CSpace 0 True,
       Chr (CChar dquote), Grp (Rep (CNot [CChar dquote]) 1 True), Chr (CChar dquote)]"

definition methodRe :: "item list" where
  "methodRe =
     lit ''method'' @ [Rep CSpace 0 True, Chr (CChar CHR '':''), Rep CSpace 0 True,
       Grp (Rep CWord 1 True)]"

definition endpointOfMatch2 :: "src_match \<Rightarrow> endpoint2" where
  "endpointOfMatch2 m =
     \<lparr>endpoint2_name = or_else (match_group1 endpointNameRe (match_text m)) [],
      endpoint2_path = or_else (match_group1 pathRe (match_text m)) [],
      endpoint2_method = or_else (match_group1 methodRe (match_text m)) ''GET''\<rparr>"

definition parseDirectApi2 :: "string \<Rightarrow> api2 option" where
  "parseDirectApi2 sourceText =
     (case exec apiRe sourceText of
        None \<Rightarrow> None
      | Some apiSection \<Rightarrow>
          Some \<lparr>api2_baseUrl = group apiSection 1,
                api2_endpoints =
                  map endpointOfMatch2
                    (findMatchesInSource sourceText (new_regexp endpointBlockRe))\<rparr>)"



section \<open>The validators\<close>

text \<open>
  A check receives a node and the callback \<open>accept(severity, message, {node, property})\<close>; the
  model returns the diagnostics in the order the check accepts them. \<open>diag_node\<close> names the
  node of the diagnostic by its place under the node being checked: \<open>ScreenNode i\<close> is
  \<open>app.screens[i]\<close>, \<open>PropertyNode i\<close> is \<open>model.properties[i]\<close>, \<open>EnumValueNode i j\<close> is the
  \<open>j\<close>-th value of the enum feature of that property, \<open>NavItemNode i\<close> is
  \<open>navigation.items[i]\<close>, \<open>EndpointNode i\<close> is \<open>api.endpoints[i]\<close>.
\<close>

datatype severity = ErrorSeverity | WarningSeverity

datatype node_ref =
    AppNode
  | ScreenNode nat
  | ModelNode
  | PropertyNode nat
  | EnumValueNode nat nat
  | NavigationNode
  | NavItemNode nat
  | ApiNode
  | EndpointNode nat

record diagnostic =
  diag_severity :: severity
  diag_message :: string
  diag_node :: node_ref
  diag_property :: "string option"

definition accept :: "severity \<Rightarrow> string \<Rightarrow> node_ref \<Rightarrow> string option \<Rightarrow> diagnostic" where
  "accept sev msg n p = \<lparr>diag_severity = sev, diag_message = msg, diag_node = n, diag_property = p\<rparr>"

definition is_error :: "diagnostic \<Rightarrow> bool" where
  "is_error d = (diag_severity d = ErrorSeverity)"

subsection \<open>\<open>checkApp\<close> as the language module registers it\<close>

definition checkApp :: "ast_app \<Rightarrow> diagnostic list" where
  "checkApp app =
     (if length (app_models app) = 0
      then [accept WarningSeverity ''No models defined. At least one model should be defined.''
              AppNode (Some ''models'')]
      else [])
     @ (if length (app_screens app) = 0
        then [accept WarningSeverity ''No screens defined. At least one screen should be defined.''
                AppNode (Some ''screens'')]
        else [])
     @ (if length (app_screens app) > 0
        then (let initialScreens = filter as_isInitial (app_screens app)
              in if length initialScreens = 0
                 then [accept ErrorSeverity
                         ''No initial screen defined. One screen must be marked as initial.''
                         AppNode (Some ''screens'')]
                 else if length initialScreens > 1
                 then [accept ErrorSeverity
                         ''Multiple initial screens defined. Only one screen can be marked as initial.''
                         AppNode (Some ''screens'')]
                 else [])
        else [])"

subsection \<open>The validator of \<open>FromClaude/custom-validator.txt\<close>\<close>

definition checkApp_custom :: "ast_app \<Rightarrow> diagnostic list" where
  "checkApp_custom app =
     (if length (app_platforms app) = 0
      then [accept WarningSeverity
              ''No platforms defined. At least one platform should be specified.''
              AppNode (Some ''platforms'')]
      else [])
     @ (if length (app_models app) = 0
        then [accept WarningSeverity ''No models defined. At least one model should be defined.''
                AppNode (Some ''models'')]
        else [])
     @ (if length (app_screens app) = 0
        then [accept WarningSeverity ''No screens defined. At least one screen should be defined.''
                AppNode (Some ''screens'')]
        else [])
     @ (let initialScreens = filter (\<lambda>(i, sc). as_isInitial sc) (enumerate 0 (app_screens app))
        in if length initialScreens = 0
           then [accept ErrorSeverity
                   ''No initial screen defined. Exactly one screen must be marked as initial.''
                   AppNode (Some ''screens'')]
           else if length initialScreens > 1
           then accept ErrorSeverity
                  ''Multiple initial screens defined. Exactly one screen must be marked as initial.''
                  AppNode (Some ''screens'')
                # map (\<lambda>(i, sc).
                         accept ErrorSeverity
                           ''This screen is marked as initial, but another screen is also marked as initial.''
                           (ScreenNode i) (Some ''isInitial''))
                    initialScreens
           else [])"

text \<open>
  \<open>c !== c.toUpperCase()\<close> for a one-character string: the characters below 256 that
  \<open>toUpperCase\<close> changes are \<open>a-z\<close>, the micro sign, and \<open>0xDF-0xFF\<close> without the division
  sign.
\<close>

definition changedByToUpperCase :: "char \<Rightarrow> bool" where
  "changedByToUpperCase c =
     (let n = (of_char c :: nat)
      in (97 \<le> n \<and> n \<le> 122) \<or> n = 181 \<or> (223 \<le> n \<and> n \<le> 246) \<or> (248 \<le> n \<and> n \<le> 255))"

fun is_enumFeature :: "ast_feature \<Rightarrow> bool" where
  "is_enumFeature (EnumValuesFeature _) = True"
| "is_enumFeature _ = False"

fun is_requiredFeature :: "ast_feature \<Rightarrow> bool" where
  "is_requiredFeature RequiredFeature = True"
| "is_requiredFeature _ = False"

fun is_defaultFeature :: "ast_feature \<Rightarrow> bool" where
  "is_defaultFeature (DefaultValueFeature _) = True"
| "is_defaultFeature _ = False"

text \<open>
  The loop over the values of an enum feature, with the set \<open>uniqueValues\<close>; \<open>i\<close> is the index
  of the property, the values come with their indices.
\<close>

fun duplicateLoop :: "nat \<Rightarrow> (nat \<times> ast_enumValue) list \<Rightarrow> string set \<Rightarrow> diagnostic list" where
  "duplicateLoop i [] uniqueValues = []"
| "duplicateLoop i ((j, v) # rest) uniqueValues =
     (let valueStr = ev_value v
      in (if valueStr \<in> uniqueValues
          then [accept ErrorSeverity
                  (''Duplicate enum value: '' @ [dquote] @ valueStr @ [dquote] @ ''.'')
                  (EnumValueNode i j) None]
          else [])
         @ duplicateLoop i rest (insert valueStr uniqueValues))"

text \<open>The callback of \<open>model.properties.forEach\<close>, for the property at index \<open>i\<close>.\<close>

definition checkProperty :: "nat \<Rightarrow> ast_property \<Rightarrow> diagnostic list" where
  "checkProperty i p =
     (case find is_enumFeature (ap_features p) of
        Some (EnumValuesFeature vals) \<Rightarrow>
          (if dt_name (ap_type p) \<noteq> ''string''
           then [accept ErrorSeverity ''Enum values can only be used with string properties.''
                   (PropertyNode i) (Some ''type'')]
           else [])
          @ duplicateLoop i (enumerate 0 vals) {}
      | _ \<Rightarrow> [])
     @ (if list_ex is_requiredFeature (ap_features p) \<and> list_ex is_defaultFeature (ap_features p)
        then [accept WarningSeverity
                ''Properties with default values do not need to be marked as required.''
                (PropertyNode i) None]
        else [])"

definition checkModel :: "ast_model \<Rightarrow> diagnostic list" where
  "checkModel m =
     (if length (am_properties m) = 0
      then [accept ErrorSeverity ''Model must have at least one property.'' ModelNode None]
      else [])
     @ (if am_name m \<noteq> [] \<and> changedByToUpperCase (hd (am_name m))
        then [accept WarningSeverity
                ''Model names should use PascalCase (start with uppercase letter).''
                ModelNode (Some ''name'')]
        else [])
     @ (if \<not> list_ex (\<lambda>prop. ap_name prop = ''id'') (am_properties m)
        then [accept WarningSeverity (''Model should have an '' @ [dquote] @ ''id'' @ [dquote] @ '' property.'')
                ModelNode None]
        else [])
     @ concat (map (\<lambda>(i, p). checkProperty i p) (enumerate 0 (am_properties m)))"

text \<open>
  \<open>checkNavigation\<close>: the map \<open>screenRefs\<close> is read only through \<open>has\<close>, so the model keeps its
  keys; a key is the name of the screen an item resolves to, or \<open>undefined\<close>.
\<close>

definition resolvedName :: "ast_navItem \<Rightarrow> string option" where
  "resolvedName item = map_option as_name (ref (ni_screen item))"

fun screenRefLoop :: "(nat \<times> ast_navItem) list \<Rightarrow> string option set \<Rightarrow> diagnostic list" where
  "screenRefLoop [] screenRefs = []"
| "screenRefLoop ((i, item) # rest) screenRefs =
     (let screenName = resolvedName item
      in (if truthy screenName \<and> screenName \<in> screenRefs
          then [accept WarningSeverity
                  (''Screen '' @ [dquote] @ or_else screenName [] @ [dquote]
                     @ '' is referenced multiple times in navigation.'')
                  (NavItemNode i) (Some ''screen'')]
          else [])
         @ screenRefLoop rest (insert screenName screenRefs))"

definition checkNavigation :: "ast_navigation \<Rightarrow> diagnostic list" where
  "checkNavigation navigation =
     (if length (nav_items navigation) = 0
      then [accept ErrorSeverity ''Navigation must have at least one item.''
              NavigationNode (Some ''items'')]
      else [])
     @ screenRefLoop (enumerate 0 (nav_items navigation)) {}
     @ (if nav_type navigation = ''tab'' \<and> length (nav_items navigation) > 5
        then [accept WarningSeverity
                ''Tab navigation typically should not have more than 5 items.''
                NavigationNode (Some ''type'')]
        else [])"

text \<open>
  All matches of a pattern from position \<open>i\<close> on, from left to right, as a global search
  finds them: after an empty match the search moves on by one character. \<open>s.match(r)\<close> for a
  pattern with the \<open>g\<close> flag returns their texts, or \<open>null\<close> when there is none.
\<close>

function matches_from :: "item list \<Rightarrow> string \<Rightarrow> nat \<Rightarrow> rx_match list" where
  "matches_from r s i =
     (case search_from r s i of
        None \<Rightarrow> []
      | Some m \<Rightarrow>
          m # matches_from r s
                (if matched m = [] then index m + 1 else index m + length (matched m)))"
  by pat_completeness auto
termination
proof (relation "measure (\<lambda>(r, s, i). Suc (length s) - i)", goal_cases)
  case 1
  show ?case by simp
next
  case (2 r s i m)
  from search_from_bounds(1,2)[OF 2] have "i \<le> index m" "index m \<le> length s" .
  then show ?case by (cases "matched m") simp_all
qed

declare matches_from.simps [simp del]

definition match_global :: "item list \<Rightarrow> string \<Rightarrow> string list option" where
  "match_global r s = (case map matched (matches_from r s 0) of [] \<Rightarrow> None | ms \<Rightarrow> Some ms)"

text \<open>\<open>/\{([^}]+)\}/g\<close>\<close>

definition pathParamRe :: "item list" where
  "pathParamRe =
     [Chr (CChar CHR ''{''), Grp (Rep (CNot [CChar CHR ''}'']) 1 True), Chr (CChar CHR ''}'')]"

text \<open>
  The path parameters of a path as \<open>checkAPI\<close> reads them: the matches of the pattern without
  their braces, and none when the path has no \<open>{\<close>.
\<close>

definition pathParams :: "string \<Rightarrow> string list" where
  "pathParams path =
     (if str_includes path ''{''
      then (case match_global pathParamRe path of
              None \<Rightarrow> []
            | Some paramMatches \<Rightarrow>
                map (\<lambda>m. substring m 1 (int (length m) - 1)) paramMatches)
      else [])"

definition definedParams :: "ast_endpoint \<Rightarrow> string list" where
  "definedParams endpoint =
     (case ep_params endpoint of None \<Rightarrow> [] | Some ps \<Rightarrow> map par_name ps)"

definition pathParamMessage :: "string \<Rightarrow> string" where
  "pathParamMessage pathParam =
     ''Path parameter '' @ [dquote] @ pathParam @ [dquote]
       @ '' is not defined in the endpoint parameters.''"

fun duplicateIdLoop :: "(nat \<times> ast_endpoint) list \<Rightarrow> string set \<Rightarrow> diagnostic list" where
  "duplicateIdLoop [] endpointIds = []"
| "duplicateIdLoop ((i, endpoint) # rest) endpointIds =
     (if ep_id endpoint \<in> endpointIds
      then [accept ErrorSeverity
              (''Duplicate endpoint ID: '' @ [dquote] @ ep_id endpoint @ [dquote] @ ''.'')
              (EndpointNode i) (Some ''id'')]
      else [])
     @ duplicateIdLoop rest (insert (ep_id endpoint) endpointIds)"

text \<open>The callback of the second \<open>api.endpoints.forEach\<close>, for the endpoint at index \<open>i\<close>.\<close>

definition checkEndpoint :: "nat \<Rightarrow> ast_endpoint \<Rightarrow> diagnostic list" where
  "checkEndpoint i endpoint =
     (if ep_method endpoint = ''POST'' \<and> str_includes (ep_path endpoint) ''{''
      then [accept WarningSeverity
              ''POST endpoints typically should not have path parameters. Consider using query parameters or request body.''
              (EndpointNode i) (Some ''path'')]
      else [])
     @ (if ep_method endpoint = ''PUT'' \<and> \<not> str_includes (ep_path endpoint) ''{''
        then [accept WarningSeverity
                ''PUT endpoints typically should include a resource ID in the path.''
                (EndpointNode i) (Some ''path'')]
        else [])
     @ (if ep_method endpoint = ''DELETE'' \<and> \<not> str_includes (ep_path endpoint) ''{''
        then [accept WarningSeverity
                ''DELETE endpoints typically should include a resource ID in the path.''
                (EndpointNode i) (Some ''path'')]
        else [])
     @ concat (map (\<lambda>pathParam.
                      if pathParam \<notin> set (definedParams endpoint)
                      then [accept ErrorSeverity (pathParamMessage pathParam)
                              (EndpointNode i) (Some ''path'')]
                      else [])
                 (pathParams (ep_path endpoint)))
     @ (if (ep_method endpoint = ''POST'' \<or> ep_method endpoint = ''PUT'') \<and> ep_body endpoint = None
        then [accept WarningSeverity
                (ep_method endpoint @ '' endpoints typically should have a request body defined.'')
                (EndpointNode i) None]
        else [])
     @ (if (ep_method endpoint = ''GET'' \<or> ep_method endpoint = ''DELETE'') \<and> ep_body endpoint \<noteq> None
        then [accept WarningSeverity
                (ep_method endpoint @ '' endpoints typically should not have a request body.'')
                (EndpointNode i) (Some ''body'')]
        else [])"

definition checkAPI :: "ast_api \<Rightarrow> diagnostic list" where
  "checkAPI api =
     (if length (aa_endpoints api) = 0
      then [accept WarningSeverity ''API should have at least one endpoint.''
              ApiNode (Some ''endpoints'')]
      else [])
     @ duplicateIdLoop (enumerate 0 (aa_endpoints api)) {}
     @ concat (map (\<lambda>(i, endpoint). checkEndpoint i endpoint) (enumerate 0 (aa_endpoints api)))"

subsection \<open>The registered checks\<close>

text \<open>
  \<open>registerValidationChecks\<close> hands the registry an object that names, per type of node, the
  check to run on the nodes of that type; validation then emits for a node what the check
  registered for its type accepts, and nothing for a type without a check. The validator
  beside the grammar, which the language module imports and calls, registers \<open>App: checkApp\<close>
  and nothing else. \<open>custom-validator.txt\<close> registers a check for \<open>App\<close>, \<open>Model\<close>, \<open>Screen\<close>,
  \<open>Navigation\<close> and \<open>API\<close>; its \<open>checkScreen\<close> reads the layout of a screen, which the tree here
  leaves out, so it is a parameter.
\<close>

record validationChecks =
  check_App :: "(ast_app \<Rightarrow> diagnostic list) option"
  check_Model :: "(ast_model \<Rightarrow> diagnostic list) option"
  check_Screen :: "(ast_screen \<Rightarrow> diagnostic list) option"
  check_Navigation :: "(ast_navigation \<Rightarrow> diagnostic list) option"
  check_API :: "(ast_api \<Rightarrow> diagnostic list) option"

definition registerValidationChecks :: validationChecks where
  "registerValidationChecks =
     \<lparr>check_App = Some checkApp, check_Model = None, check_Screen = None,
      check_Navigation = None, check_API = None\<rparr>"

definition registerValidationChecks_custom ::
  "(ast_screen \<Rightarrow> diagnostic list) \<Rightarrow> validationChecks" where
  "registerValidationChecks_custom checkScreen =
     \<lparr>check_App = Some checkApp_custom, check_Model = Some checkModel,
      check_Screen = Some checkScreen, check_Navigation = Some checkNavigation,
      check_API = Some checkAPI\<rparr>"

text \<open>What validation with the registered checks emits for a \<open>Model\<close> node.\<close>

definition validateModel :: "validationChecks \<Rightarrow> ast_model \<Rightarrow> diagnostic list" where
  "validateModel checks m = (case check_Model checks of None \<Rightarrow> [] | Some check \<Rightarrow> check m)"

section \<open>Vocabulary of the properties\<close>

text \<open>
  The entry of \<open>findMatchesInSource\<close> for a match, and the step of its loop on the pattern
  object: \<open>lastIndex\<close> after a match, moved on by one after an empty match.
\<close>

definition src_of :: "rx_match \<Rightarrow> src_match" where
  "src_of rm = \<lparr>match_start = index rm, match_end = index rm + length (matched rm),
                match_text = matched rm\<rparr>"

definition advance :: "regexp \<Rightarrow> rx_match \<Rightarrow> regexp" where
  "advance p m =
     p\<lparr>lastIndex := (if matched m = [] then index m + 1 else index m + length (matched m))\<rparr>"

text \<open>A match lies before another: it starts earlier and ends where the other starts, or earlier.\<close>

definition before :: "rx_match \<Rightarrow> rx_match \<Rightarrow> bool" where
  "before a b = (index a < index b \<and> index a + length (matched a) \<le> index b)"

text \<open>
  A way through a pattern: the number of characters each item consumes, each one of the
  lengths the matcher tries for that item at that place.
\<close>

fun path_ok :: "item list \<Rightarrow> string \<Rightarrow> nat list \<Rightarrow> bool" where
  "path_ok [] s ns = (ns = [])"
| "path_ok (it # its) s [] = False"
| "path_ok (it # its) s (n # ns) = (n \<in> set (cands it s) \<and> path_ok its (drop n s) ns)"

text \<open>The endpoint the first listing builds from a match of \<open>endpointRegex\<close>.\<close>

definition endpoint_of :: "rx_match \<Rightarrow> endpoint" where
  "endpoint_of m =
     \<lparr>endpoint_id = group m 1, endpoint_path = group m 2, endpoint_method = group m 3\<rparr>"

text \<open>
  The warning \<open>checkNavigation\<close> accepts on the item at index \<open>i\<close>; it is the only diagnostic
  of \<open>checkNavigation\<close> on the property \<open>screen\<close>.
\<close>

definition multipleReferenceWarning :: "nat \<Rightarrow> ast_navItem \<Rightarrow> diagnostic" where
  "multipleReferenceWarning i item =
     accept WarningSeverity
       (''Screen '' @ [dquote] @ or_else (resolvedName item) [] @ [dquote]
          @ '' is referenced multiple times in navigation.'')
       (NavItemNode i) (Some ''screen'')"

definition is_multipleReference :: "diagnostic \<Rightarrow> bool" where
  "is_multipleReference d = (diag_property d = Some ''screen'')"

text \<open>The error of \<open>checkAPI\<close> for the path parameter \<open>p\<close> on the endpoint at index \<open>i\<close>.\<close>

definition is_pathParamError :: "nat \<Rightarrow> string \<Rightarrow> diagnostic \<Rightarrow> bool" where
  "is_pathParamError i p d =
     (diag_severity d = ErrorSeverity \<and> diag_node d = EndpointNode i
      \<and> diag_message d = pathParamMessage p)"

section \<open>Inputs of the examples\<close>

definition example_app :: "ast_screen list \<Rightarrow> ast_app" where
  "example_app scs =
     \<lparr>app_name = ''A'', app_displayName = ''A'', app_appId = ''a'', app_version = ''1'',
      app_platforms = [''web''], app_models = [], app_screens = scs,
      app_navigation = None, app_api = None\<rparr>"

definition example_screen :: "string \<Rightarrow> bool \<Rightarrow> ast_screen" where
  "example_screen n b = \<lparr>as_name = n, as_title = n, as_isInitial = b\<rparr>"

definition stringType :: ast_dataType where
  "stringType = \<lparr>dt_name = ''string'', dt_isArray = False\<rparr>"

definition numberType :: ast_dataType where
  "numberType = \<lparr>dt_name = ''number'', dt_isArray = False\<rparr>"

text \<open>\<open>status: string enum: [open, closed, open]\<close>, \<open>count: number enum: [1, 2]\<close> and \<open>id: string required\<close>\<close>

definition statusProperty :: ast_property where
  "statusProperty =
     \<lparr>ap_name = ''status'', ap_type = stringType,
      ap_features = [EnumValuesFeature
        [\<lparr>ev_value = ''open''\<rparr>, \<lparr>ev_value = ''closed''\<rparr>, \<lparr>ev_value = ''open''\<rparr>]]\<rparr>"

definition countProperty :: ast_property where
  "countProperty =
     \<lparr>ap_name = ''count'', ap_type = numberType,
      ap_features = [EnumValuesFeature [\<lparr>ev_value = ''1''\<rparr>, \<lparr>ev_value = ''2''\<rparr>]]\<rparr>"

definition idProperty :: ast_property where
  "idProperty = \<lparr>ap_name = ''id'', ap_type = stringType, ap_features = [RequiredFeature]\<rparr>"

text \<open>A \<open>checkScreen\<close> for the examples: it accepts nothing.\<close>

definition example_checkScreen :: "ast_screen \<Rightarrow> diagnostic list" where
  "example_checkScreen sc = []"

definition ticketModel :: ast_model where
  "ticketModel = \<lparr>am_name = ''Ticket'', am_properties = [idProperty, statusProperty, countProperty]\<rparr>"

text \<open>Navigation items that resolve to the screen of the given name.\<close>

definition navItemTo :: "string \<Rightarrow> ast_navItem" where
  "navItemTo n =
     \<lparr>ni_title = n, ni_icon = None,
      ni_screen = \<lparr>refText = n, ref = Some (example_screen n False)\<rparr>\<rparr>"

definition example_navigation :: "string list \<Rightarrow> ast_navigation" where
  "example_navigation ns = \<lparr>nav_type = ''tab'', nav_items = map navItemTo ns\<rparr>"

definition example_endpoint :: "string \<Rightarrow> string \<Rightarrow> string list \<Rightarrow> ast_endpoint" where
  "example_endpoint path method params =
     \<lparr>ep_id = ''getTransactions'', ep_path = path, ep_method = method,
      ep_params = (if params = [] then None
                   else Some (map (\<lambda>n. \<lparr>par_name = n, par_type = stringType,
                                          par_isRequired = True\<rparr>) params)),
      ep_body = None, ep_response = \<lparr>rt_type = ''Transaction'', rt_isArray = True\<rparr>\<rparr>"

definition example_api :: "ast_endpoint list \<Rightarrow> ast_api" where
  "example_api eps =
     \<lparr>aa_baseUrl = ''https://api.example.com'', aa_isMock = False, aa_endpoints = eps\<rparr>"

text \<open>The source texts of the examples.\<close>

definition roundTripSource :: string where
  "roundTripSource = ''model M { a: string required'' @ [newline] @ ''b: number default: 5 }''"

definition screenSource :: string where
  "screenSource = ''screen Home { title: \"Start\" initial } screen Other { layout: { } }''"

definition apiSource :: string where
  "apiSource =
     ''api { baseUrl: \"u\" } endpoint x { path: \"/p\" method: POST } endpoint y { }''"





section \<open>Facts about the matcher and the loops\<close>

lemma findMatches_loop_None:
  "search_from (source p) s (lastIndex p) = None \<Longrightarrow>
     findMatches_loop s p acc = (acc, p\<lparr>lastIndex := 0\<rparr>)"
  by (subst findMatches_loop.simps) (simp add: regexp_exec_def)

lemma findMatches_loop_Some:
  "search_from (source p) s (lastIndex p) = Some m \<Longrightarrow>
     findMatches_loop s p acc = findMatches_loop s (advance p m) (acc @ [src_of m])"
  by (subst findMatches_loop.simps) (simp add: regexp_exec_def Let_def src_of_def advance_def)

lemma findMatches_loop_induct [consumes 0, case_names None Some]:
  assumes "\<And>s p acc. search_from (source p) s (lastIndex p) = None \<Longrightarrow> P s p acc"
    and "\<And>s p acc m. search_from (source p) s (lastIndex p) = Some m \<Longrightarrow>
            P s (advance p m) (acc @ [src_of m]) \<Longrightarrow> P s p acc"
  shows "P s p acc"
proof (induction s p acc rule: findMatches_loop.induct)
  case (1 s p acc)
  show ?case
  proof (cases "search_from (source p) s (lastIndex p)")
    case None
    then show ?thesis by (rule assms(1))
  next
    case (Some m)
    have ex: "(Some m, p\<lparr>lastIndex := index m + length (matched m)\<rparr>) = regexp_exec p s"
      using Some by (simp add: regexp_exec_def)
    have "P s (advance p m) (acc @ [src_of m])"
      using "1"[OF ex refl refl refl refl refl refl]
      by (cases "matched m") (simp_all add: advance_def src_of_def)
    with Some show ?thesis by (rule assms(2))
  qed
qed

lemma findMatches_loop_eq:
  "findMatches_loop s p acc =
     (acc @ map src_of (matches_from (source p) s (lastIndex p)), p\<lparr>lastIndex := 0\<rparr>)"
proof (induction s p acc rule: findMatches_loop_induct)
  case (None s p acc)
  then show ?case
    by (simp add: findMatches_loop_None matches_from.simps[of "source p" s "lastIndex p"])
next
  case (Some s p acc m)
  then show ?case
    by (simp add: findMatches_loop_Some matches_from.simps[of "source p" s "lastIndex p"]
          advance_def)
qed

lemma findMatchesInSource_eq:
  "findMatchesInSource s (new_regexp r) = map src_of (matches_from r s 0)"
  by (simp add: findMatchesInSource_def findMatches_loop_eq new_regexp_def)

lemma matches_from_search:
  "m \<in> set (matches_from r s i) \<Longrightarrow> \<exists>j. i \<le> j \<and> search_from r s j = Some m"
proof (induction r s i rule: matches_from.induct)
  case (1 r s i)
  show ?case
  proof (cases "search_from r s i")
    case None
    with "1.prems" show ?thesis by (simp add: matches_from.simps[of r s i])
  next
    case (Some m0)
    let ?i' = "if matched m0 = [] then index m0 + 1 else index m0 + length (matched m0)"
    from "1.prems" Some have "m = m0 \<or> m \<in> set (matches_from r s ?i')"
      by (simp add: matches_from.simps[of r s i])
    then show ?thesis
    proof
      assume "m = m0"
      with Some show ?thesis by blast
    next
      assume "m \<in> set (matches_from r s ?i')"
      from "1.IH"[OF Some this] obtain j where j: "?i' \<le> j" "search_from r s j = Some m" by blast
      from search_from_bounds(1)[OF Some] have "i \<le> ?i'" by simp
      with j show ?thesis by (meson le_trans)
    qed
  qed
qed

lemma matches_from_sorted: "sorted_wrt before (matches_from r s i)"
proof (induction r s i rule: matches_from.induct)
  case (1 r s i)
  show ?case
  proof (cases "search_from r s i")
    case None
    then show ?thesis by (simp add: matches_from.simps[of r s i])
  next
    case (Some m0)
    let ?i' = "if matched m0 = [] then index m0 + 1 else index m0 + length (matched m0)"
    have "before m0 m" if "m \<in> set (matches_from r s ?i')" for m
    proof -
      from matches_from_search[OF that] obtain j where "?i' \<le> j" "search_from r s j = Some m"
        by blast
      with search_from_bounds(1)[of r s j m] have "?i' \<le> index m" by simp
      then show ?thesis by (cases "matched m0") (simp_all add: before_def)
    qed
    with "1.IH"[OF Some] Some show ?thesis
      by (simp add: matches_from.simps[of r s i])
  qed
qed

lemma rmatch_path:
  "rmatch r s = Some (caps, len) \<Longrightarrow> \<exists>ns. path_ok r s ns \<and> sum_list ns = len"
proof (induction r arbitrary: s caps len)
  case Nil
  then show ?case by simp
next
  case (Cons it its)
  from Cons.prems obtain n caps' len' where n: "n \<in> set (cands it s)"
    and r: "rmatch its (drop n s) = Some (caps', len')" and l: "len = n + len'"
    by (rule rmatch_ConsD)
  from Cons.IH[OF r] obtain ns where "path_ok its (drop n s) ns" "sum_list ns = len'" by blast
  with n l have "path_ok (it # its) s (n # ns) \<and> sum_list (n # ns) = len" by simp
  then show ?case by blast
qed

lemma path_rmatch:
  "path_ok r s ns \<Longrightarrow> \<exists>x. rmatch r s = Some x"
proof (induction r s ns rule: path_ok.induct)
  case (1 s ns)
  then show ?case by simp
next
  case (2 it its s)
  then show ?case by simp
next
  case (3 it its s n ns)
  then obtain x where x: "rmatch its (drop n s) = Some x" and n: "n \<in> set (cands it s)" by auto
  show ?case
  proof (cases "rmatch (it # its) s")
    case None
    then have "\<forall>k \<in> set (cands it s).
        (case rmatch its (drop k s) of None \<Rightarrow> None
         | Some (caps, len) \<Rightarrow> Some ((if is_group it then [take k s] else []) @ caps, k + len)) = None"
      by (simp add: first_some_None_iff)
    with n x show ?thesis by (cases x) auto
  next
    case (Some y)
    then show ?thesis by blast
  qed
qed

lemma takeWhile_take: "takeWhile P (take k s) = take k (takeWhile P s)"
proof (induction s arbitrary: k)
  case Nil
  then show ?case by simp
next
  case (Cons c s)
  then show ?case by (cases k) auto
qed

lemma cands_take:
  "n \<in> set (cands it s) \<Longrightarrow> n \<le> k \<Longrightarrow> n \<in> set (cands it (take k s))"
proof (induction it)
  case (Chr c)
  then show ?case by (cases s; cases k) (auto split: if_splits)
next
  case (Rep c lo greedy)
  then show ?case by (auto simp: takeWhile_take Let_def split: if_splits)
next
  case (Grp it)
  then show ?case by simp
qed

lemma path_ok_take:
  "path_ok r s ns \<Longrightarrow> sum_list ns \<le> k \<Longrightarrow> path_ok r (take k s) ns"
proof (induction r s ns arbitrary: k rule: path_ok.induct)
  case (1 s ns)
  then show ?case by simp
next
  case (2 it its s)
  then show ?case by simp
next
  case (3 it its s n ns)
  from "3.prems" have n: "n \<in> set (cands it s)" and p: "path_ok its (drop n s) ns"
    and le: "n \<le> k" "sum_list ns \<le> k - n" by auto
  from "3.IH"[OF p le(2)] have "path_ok its (take (k - n) (drop n s)) ns" .
  then have "path_ok its (drop n (take k s)) ns" by (simp add: drop_take)
  with cands_take[OF n le(1)] show ?case by simp
qed

lemma path_ok_append:
  "path_ok (r1 @ r2) s ns \<Longrightarrow>
     path_ok r1 s (take (length r1) ns) \<and> sum_list (take (length r1) ns) \<le> sum_list ns"
proof (induction r1 arbitrary: s ns)
  case Nil
  then show ?case by simp
next
  case (Cons it its)
  then show ?case by (cases ns) auto
qed

lemma rmatch_prefix:
  assumes "rmatch (r1 @ r2) s = Some (caps, len)"
  shows "\<exists>x. rmatch r1 (take len s) = Some x"
proof -
  from rmatch_path[OF assms] obtain ns where p: "path_ok (r1 @ r2) s ns" and l: "sum_list ns = len"
    by blast
  from path_ok_append[OF p] l have "path_ok r1 s (take (length r1) ns)"
    and "sum_list (take (length r1) ns) \<le> len" by simp_all
  from path_ok_take[OF this] show ?thesis by (rule path_rmatch)
qed

lemma exec_prefix_of_match:
  assumes "search_from (r1 @ r2) s i = Some m"
  shows "\<exists>m'. exec r1 (matched m) = Some m'"
proof -
  from search_from_bounds(3)[OF assms] obtain caps len
    where r: "rmatch (r1 @ r2) (drop (index m) s) = Some (caps, len)"
      and m: "matched m = take len (drop (index m) s)"
    by blast
  from rmatch_prefix[OF r] m obtain x where x: "rmatch r1 (matched m) = Some x" by auto
  show ?thesis
  proof (cases "exec r1 (matched m)")
    case None
    then have "\<forall>p \<in> set [0 ..< Suc (length (matched m))].
        (case rmatch r1 (drop p (matched m)) of None \<Rightarrow> None
         | Some (caps, len) \<Rightarrow>
             Some \<lparr>index = p, matched = take len (drop p (matched m)), groups = caps\<rparr>) = None"
      by (simp add: exec_def search_from_def first_some_None_iff)
    then have "(case rmatch r1 (drop 0 (matched m)) of None \<Rightarrow> None
         | Some (caps, len) \<Rightarrow>
             Some \<lparr>index = 0, matched = take len (drop 0 (matched m)), groups = caps\<rparr>) = None"
      by (metis atLeast_upt lessThan_iff atLeast0LessThan zero_less_Suc)
    with x show ?thesis by (cases x) simp
  next
    case (Some m')
    then show ?thesis by blast
  qed
qed

lemma exec_groups:
  assumes "exec r s = Some m"
  shows "list_all2 (\<lambda>it c. item_min it \<le> length c) (filter is_group r) (groups m)"
  using assms search_from_matched(3) by (simp add: exec_def)

lemma group_in_range:
  "0 < k \<Longrightarrow> k \<le> length (groups m) \<Longrightarrow> group m k = Some (groups m ! (k - 1))"
  by (simp add: group_def)

lemma exec_propRe_groups:
  assumes "exec propRe line = Some m"
  shows "\<exists>a b c. groups m = [a, b, c]"
proof -
  from exec_groups[OF assms] have "length (groups m) = 3"
    by (auto simp: propRe_def dest!: list_all2_lengthD)
  then show ?thesis by (auto simp: length_Suc_conv eval_nat_numeral)
qed

lemma exec_enumRe_groups:
  assumes "exec enumRe s = Some m"
  shows "\<exists>a. groups m = [a]"
proof -
  from exec_groups[OF assms] have "length (groups m) = 1"
    by (auto simp: enumRe_def lit_def dest!: list_all2_lengthD)
  then show ?thesis by (auto simp: length_Suc_conv)
qed

lemma parsePropertyLine_returns: "\<exists>r. parsePropertyLine line = Inr r"
proof (cases "exec propRe line")
  case None
  then show ?thesis by (simp add: parsePropertyLine_def)
next
  case (Some m)
  from exec_propRe_groups[OF Some] obtain a b c where g: "groups m = [a, b, c]" by blast
  then have g3: "group m 3 = Some c" by (simp add: group_def)
  show ?thesis
  proof (cases "exec enumRe (trim c)")
    case None
    with Some g3 show ?thesis by (simp add: parsePropertyLine_def Let_def)
  next
    case (Some em)
    from exec_enumRe_groups[OF Some] obtain v where "groups em = [v]" by blast
    then have "group em 1 = Some v" by (simp add: group_def)
    with Some \<open>exec propRe line = Some m\<close> g3 show ?thesis
      by (simp add: parsePropertyLine_def Let_def)
  qed
qed

lemma parsePropertyLines_returns: "\<exists>ps. parsePropertyLines ls = Inr ps"
proof (induction ls)
  case Nil
  then show ?case by simp
next
  case (Cons l ls)
  from parsePropertyLine_returns[of l] obtain r where r: "parsePropertyLine l = Inr r" by blast
  from Cons obtain ps where ps: "parsePropertyLines ls = Inr ps" by blast
  from r ps show ?case by (cases r) simp_all
qed

lemma parseModelMatch_returns: "\<exists>r. parseModelMatch m = Inr r"
proof (cases "exec modelNameRe (match_text m)")
  case None
  then show ?thesis by (simp add: parseModelMatch_def)
next
  case (Some nm)
  obtain ps where "parsePropertyLines (propertyLines
                 (substring (match_text m) (indexOf (match_text m) CHR ''{'' + 1)
                   (lastIndexOf (match_text m) CHR ''}''))) = Inr ps"
    using parsePropertyLines_returns by blast
  with Some show ?thesis by (simp add: parseModelMatch_def Let_def)
qed

lemma parseModelMatches_returns: "\<exists>xs. parseModelMatches ms = Inr xs"
proof (induction ms)
  case Nil
  then show ?case by simp
next
  case (Cons m ms)
  from parseModelMatch_returns[of m] obtain r where r: "parseModelMatch m = Inr r" by blast
  from Cons obtain xs where xs: "parseModelMatches ms = Inr xs" by blast
  from r xs show ?case by (cases r) simp_all
qed


section \<open>Initial screens (\<open>checkApp\<close>)\<close>

lemma filter_enumerate_snd:
  "map snd (filter (\<lambda>(i, x). P x) (enumerate n xs)) = filter P xs"
  by (induction xs arbitrary: n) auto

lemma length_filter_enumerate:
  "length (filter (\<lambda>(i, x). P x) (enumerate n xs)) = length (filter P xs)"
  using filter_enumerate_snd[of P n xs] by (metis length_map)

lemma checkApp_error_count:
  "length (filter is_error (checkApp app)) =
     (if app_screens app = [] then 0
      else if length (filter as_isInitial (app_screens app)) = 1 then 0 else 1)"
proof (cases "filter as_isInitial (app_screens app)")
  case Nil
  then show ?thesis
    by (simp add: checkApp_def is_error_def accept_def)
next
  case (Cons x xs)
  then have ne: "app_screens app \<noteq> []" by auto
  show ?thesis
  proof (cases xs)
    case Nil
    with Cons ne show ?thesis
      by (simp add: checkApp_def is_error_def accept_def)
  next
    case (Cons y ys)
    with \<open>filter as_isInitial (app_screens app) = x # xs\<close> ne show ?thesis
      by (simp add: checkApp_def is_error_def accept_def)
  qed
qed

lemma checkApp_custom_error_count:
  "length (filter is_error (checkApp_custom app)) =
     (let k = length (filter as_isInitial (app_screens app))
      in if k = 0 then 1 else if k = 1 then 0 else 1 + k)"
proof -
  define ini where "ini = filter (\<lambda>(i, sc). as_isInitial sc) (enumerate 0 (app_screens app))"
  have len: "length (filter as_isInitial (app_screens app)) = length ini"
    by (simp add: ini_def length_filter_enumerate)
  have a: "filter is_error (map (\<lambda>(i, sc). accept ErrorSeverity m (ScreenNode i) p) xs)
       = map (\<lambda>(i, sc). accept ErrorSeverity m (ScreenNode i) p) xs" for m p and xs :: "(nat \<times> ast_screen) list"
    by (induction xs) (auto simp: is_error_def accept_def)
  have "length (filter is_error (checkApp_custom app)) =
          (if length ini = 0 then 1 else if length ini = 1 then 0 else 1 + length ini)"
  proof (cases ini)
    case Nil
    then show ?thesis
      by (simp add: checkApp_custom_def ini_def[symmetric] is_error_def accept_def)
  next
    case (Cons x xs)
    show ?thesis
    proof (cases xs)
      case Nil
      with Cons show ?thesis
        by (simp add: checkApp_custom_def ini_def[symmetric] is_error_def accept_def)
    next
      case (Cons y ys)
      have e: "is_error (accept ErrorSeverity m n p)" for m n p
        by (simp add: is_error_def accept_def)
      have w: "\<not> is_error (accept WarningSeverity m n p)" for m n p
        by (simp add: is_error_def accept_def)
      from Cons \<open>ini = x # xs\<close> show ?thesis
        by (simp add: checkApp_custom_def ini_def[symmetric] a e w del: list.map)
    qed
  qed
  with len show ?thesis by (simp add: Let_def)
qed

text \<open>
  C1, as the code has it. All error diagnostics of \<open>checkApp\<close> are about the initial screen.
  The registered \<open>checkApp\<close> looks for initial screens only when the application has a
  screen: with no screen at all it accepts no error (only the warning "No screens
  defined"); with at least one screen it accepts no error when exactly one screen is
  initial and exactly one error otherwise. The \<open>checkApp\<close> of \<open>custom-validator.txt\<close> accepts
  exactly one error when no screen is initial (also when there is no screen), none when
  exactly one is, and for \<open>k \<ge> 2\<close> initial screens \<open>1 + k\<close> errors: one on the application and
  one on each initial screen.
\<close>

theorem C1_checkApp_initial_errors:
  "length (filter is_error (checkApp app)) =
     (if app_screens app = [] then 0
      else if length (filter as_isInitial (app_screens app)) = 1 then 0 else 1)
   \<and> length (filter is_error (checkApp_custom app)) =
     (let k = length (filter as_isInitial (app_screens app))
      in if k = 0 then 1 else if k = 1 then 0 else 1 + k)"
  using checkApp_error_count checkApp_custom_error_count by blast

theorem C1_checkApp_initial_errors_witness:
  "length (filter is_error
     (checkApp (example_app [example_screen ''Home'' True, example_screen ''Login'' False]))) = 0
   \<and> length (filter is_error
     (checkApp_custom (example_app [example_screen ''Home'' True, example_screen ''Login'' False]))) = 0"
  using C1_checkApp_initial_errors
          [of "example_app [example_screen ''Home'' True, example_screen ''Login'' False]"]
  by (simp add: example_app_def example_screen_def)

text \<open>
  C1 as stated fails: an application without screens has no initial screen and gets no
  error from the registered \<open>checkApp\<close>; two initial screens get three errors from the
  \<open>checkApp\<close> of \<open>custom-validator.txt\<close>.
\<close>

theorem C1_one_error_counterexample:
  "length (filter as_isInitial (app_screens (example_app []))) = 0
   \<and> length (filter is_error (checkApp (example_app []))) = 0
   \<and> length (filter as_isInitial (app_screens
        (example_app [example_screen ''Home'' True, example_screen ''Login'' True]))) = 2
   \<and> length (filter is_error (checkApp_custom
        (example_app [example_screen ''Home'' True, example_screen ''Login'' True]))) = 3"
  by (simp add: example_app_def example_screen_def checkApp_def checkApp_custom_def
        is_error_def accept_def)

section \<open>Enum values (\<open>checkModel\<close>)\<close>

lemma checkProperty_status:
  "checkProperty i statusProperty =
     [accept ErrorSeverity (''Duplicate enum value: '' @ [dquote] @ ''open'' @ [dquote] @ ''.'')
        (EnumValueNode i 2) None]"
  by (simp add: checkProperty_def statusProperty_def stringType_def eval_nat_numeral)

lemma checkProperty_count:
  "checkProperty i countProperty =
     [accept ErrorSeverity ''Enum values can only be used with string properties.''
        (PropertyNode i) (Some ''type'')]"
  by (simp add: checkProperty_def countProperty_def numberType_def)

lemma checkModel_ticket:
  "checkModel ticketModel =
     [accept ErrorSeverity (''Duplicate enum value: '' @ [dquote] @ ''open'' @ [dquote] @ ''.'')
        (EnumValueNode 1 2) None,
      accept ErrorSeverity ''Enum values can only be used with string properties.''
        (PropertyNode 2) (Some ''type'')]"
  by (simp add: ticketModel_def checkModel_def checkProperty_status checkProperty_count
        changedByToUpperCase_def eval_nat_numeral idProperty_def checkProperty_def
        stringType_def numberType_def statusProperty_def countProperty_def)

lemma checkProperty_enum_type:
  assumes ex: "list_ex is_enumFeature (ap_features p)"
    and ty: "dt_name (ap_type p) \<noteq> ''string''"
  shows "accept ErrorSeverity ''Enum values can only be used with string properties.''
           (PropertyNode i) (Some ''type'') \<in> set (checkProperty i p)"
proof -
  from ex obtain f where f: "find is_enumFeature (ap_features p) = Some f"
    by (cases "find is_enumFeature (ap_features p)") (auto simp: find_None_iff list_ex_iff)
  then have "is_enumFeature f" by (auto simp: find_Some_iff)
  then obtain vals where "f = EnumValuesFeature vals" by (cases f) auto
  with f ty show ?thesis by (simp add: checkProperty_def)
qed

text \<open>
  C6, as the code has it. With the checks of \<open>custom-validator.txt\<close> registered, validation of
  a model is \<open>checkModel\<close>. For the property \<open>status: string enum: [open, closed, open]\<close> at any
  index \<open>i\<close> of a model, its callback accepts exactly one diagnostic: the error
  \<open>Duplicate enum value: "open".\<close> on the third value. For \<open>count: number enum: [1, 2]\<close> it
  accepts exactly the error \<open>Enum values can only be used with string properties.\<close>, and it
  accepts that error for every property that has an enum feature and a type other than
  \<open>string\<close>. For the model \<open>Ticket\<close> with the properties \<open>id\<close>, \<open>status\<close> and \<open>count\<close>, these two
  errors are all that validation emits. With the checks that the validator beside the grammar
  registers (\<open>checkApp\<close> only), validation of a model emits nothing.
\<close>

theorem C6_model_validation_enum_values:
  "validateModel (registerValidationChecks_custom checkScreen) m = checkModel m
   \<and> checkProperty i statusProperty =
     [accept ErrorSeverity (''Duplicate enum value: '' @ [dquote] @ ''open'' @ [dquote] @ ''.'')
        (EnumValueNode i 2) None]
   \<and> checkProperty i countProperty =
     [accept ErrorSeverity ''Enum values can only be used with string properties.''
        (PropertyNode i) (Some ''type'')]
   \<and> validateModel (registerValidationChecks_custom checkScreen) ticketModel =
     [accept ErrorSeverity (''Duplicate enum value: '' @ [dquote] @ ''open'' @ [dquote] @ ''.'')
        (EnumValueNode 1 2) None,
      accept ErrorSeverity ''Enum values can only be used with string properties.''
        (PropertyNode 2) (Some ''type'')]
   \<and> (list_ex is_enumFeature (ap_features p) \<and> dt_name (ap_type p) \<noteq> ''string''
        \<longrightarrow> accept ErrorSeverity ''Enum values can only be used with string properties.''
              (PropertyNode i) (Some ''type'') \<in> set (checkProperty i p))
   \<and> validateModel registerValidationChecks m = []"
proof -
  have a: "validateModel (registerValidationChecks_custom cs) x = checkModel x" for cs x
    by (simp add: validateModel_def registerValidationChecks_custom_def)
  have b: "validateModel registerValidationChecks m = []"
    by (simp add: validateModel_def registerValidationChecks_def)
  from a b checkProperty_status checkProperty_count checkModel_ticket checkProperty_enum_type
  show ?thesis by simp
qed

theorem C6_model_validation_enum_values_witness:
  "list_ex is_enumFeature (ap_features countProperty)
   \<and> dt_name (ap_type countProperty) \<noteq> ''string''
   \<and> accept ErrorSeverity ''Enum values can only be used with string properties.''
        (PropertyNode 0) (Some ''type'') \<in> set (checkProperty 0 countProperty)
   \<and> length (filter (\<lambda>d. diag_message d = ''Duplicate enum value: '' @ [dquote] @ ''open'' @ [dquote] @ ''.'')
        (validateModel (registerValidationChecks_custom example_checkScreen) ticketModel)) = 1"
proof -
  have h: "list_ex is_enumFeature (ap_features countProperty)
           \<and> dt_name (ap_type countProperty) \<noteq> ''string''"
    by (simp add: countProperty_def numberType_def)
  note c6 = C6_model_validation_enum_values[of example_checkScreen ticketModel 0 countProperty]
  from c6 have v: "validateModel (registerValidationChecks_custom example_checkScreen) ticketModel =
     [accept ErrorSeverity (''Duplicate enum value: '' @ [dquote] @ ''open'' @ [dquote] @ ''.'')
        (EnumValueNode 1 2) None,
      accept ErrorSeverity ''Enum values can only be used with string properties.''
        (PropertyNode 2) (Some ''type'')]"
    by blast
  have l: "length (filter (\<lambda>d. diag_message d = ''Duplicate enum value: '' @ [dquote] @ ''open'' @ [dquote] @ ''.'')
        (validateModel (registerValidationChecks_custom example_checkScreen) ticketModel)) = 1"
    unfolding v by (simp add: accept_def)
  from c6 h have "accept ErrorSeverity ''Enum values can only be used with string properties.''
        (PropertyNode 0) (Some ''type'') \<in> set (checkProperty 0 countProperty)"
    by blast
  with h l show ?thesis by blast
qed

text \<open>
  C6 as stated fails on the validator that the language module loads: it registers no check
  for \<open>Model\<close>, so for the model \<open>Ticket\<close>, which declares \<open>status: string enum: [open, closed,
  open]\<close> and \<open>count: number enum: [1, 2]\<close>, validation emits no diagnostic at all.
\<close>

theorem C6_registered_checks_counterexample:
  "statusProperty \<in> set (am_properties ticketModel)
   \<and> countProperty \<in> set (am_properties ticketModel)
   \<and> validateModel registerValidationChecks ticketModel = []"
  by (simp add: ticketModel_def validateModel_def registerValidationChecks_def)

section \<open>Repeated screens in the navigation (\<open>checkNavigation\<close>)\<close>

lemma screenRefLoop_filter:
  "screenRefLoop (enumerate n items) S =
     map (\<lambda>(i, item). multipleReferenceWarning i item)
       (filter (\<lambda>(i, item). truthy (resolvedName item)
                  \<and> resolvedName item \<in> S \<union> set (map resolvedName (take (i - n) items)))
          (enumerate n items))"
proof (induction items arbitrary: n S)
  case Nil
  then show ?case by simp
next
  case (Cons item rest)
  define P where "P = (\<lambda>(i, it). truthy (resolvedName it)
       \<and> resolvedName it \<in> S \<union> set (map resolvedName (take (i - n) (item # rest))))"
  define Q where "Q = (\<lambda>(i, it). truthy (resolvedName it)
       \<and> resolvedName it \<in> insert (resolvedName item) S
            \<union> set (map resolvedName (take (i - Suc n) rest)))"
  have eq: "filter Q (enumerate (Suc n) rest) = filter P (enumerate (Suc n) rest)"
  proof (rule filter_cong[OF refl])
    fix x assume "x \<in> set (enumerate (Suc n) rest)"
    then have "Suc n \<le> fst x" by (simp add: in_set_enumerate_eq)
    then obtain i it where x: "x = (i, it)" and i: "Suc n \<le> i"
      by (cases x) auto
    from i obtain k where k: "i - n = Suc k" and k': "i - Suc n = k"
      by (cases "i - n") auto
    show "Q x = P x"
      by (auto simp: P_def Q_def x k k')
  qed
  have step: "screenRefLoop (enumerate n (item # rest)) S =
      (if truthy (resolvedName item) \<and> resolvedName item \<in> S
       then [multipleReferenceWarning n item] else [])
      @ screenRefLoop (enumerate (Suc n) rest) (insert (resolvedName item) S)"
    by (simp add: Let_def multipleReferenceWarning_def)
  have rhs: "filter P (enumerate n (item # rest)) =
      (if truthy (resolvedName item) \<and> resolvedName item \<in> S then [(n, item)] else [])
      @ filter P (enumerate (Suc n) rest)"
    by (simp add: P_def)
  have ih: "screenRefLoop (enumerate (Suc n) rest) (insert (resolvedName item) S) =
      map (\<lambda>(i, item). multipleReferenceWarning i item) (filter Q (enumerate (Suc n) rest))"
    unfolding Q_def by (rule Cons.IH)
  have "screenRefLoop (enumerate n (item # rest)) S =
      map (\<lambda>(i, item). multipleReferenceWarning i item) (filter P (enumerate n (item # rest)))"
    unfolding step rhs ih eq by simp
  then show ?case unfolding P_def .
qed

lemma checkNavigation_multiple:
  "filter is_multipleReference (checkNavigation nav) =
     map (\<lambda>(i, item). multipleReferenceWarning i item)
       (filter (\<lambda>(i, item). truthy (resolvedName item)
                  \<and> resolvedName item \<in> set (map resolvedName (take i (nav_items nav))))
          (enumerate 0 (nav_items nav)))"
proof -
  have m: "filter is_multipleReference (map (\<lambda>(i, item). multipleReferenceWarning i item) xs)
           = map (\<lambda>(i, item). multipleReferenceWarning i item) xs" for xs
    by (induction xs) (auto simp: is_multipleReference_def multipleReferenceWarning_def accept_def)
  show ?thesis
    by (simp add: checkNavigation_def screenRefLoop_filter m)
       (simp add: is_multipleReference_def accept_def)
qed

lemma distinct_no_multiple:
  assumes "distinct (List.map_filter resolvedName items)"
  shows "filter (\<lambda>(i, item). truthy (resolvedName item)
                  \<and> resolvedName item \<in> set (map resolvedName (take i items)))
          (enumerate 0 items) = []"
proof -
  have "\<not> (truthy (resolvedName item) \<and> resolvedName item \<in> set (map resolvedName (take i items)))"
    if "(i, item) \<in> set (enumerate 0 items)" for i item
  proof
    assume a: "truthy (resolvedName item) \<and> resolvedName item \<in> set (map resolvedName (take i items))"
    from that have i: "i < length items" and it: "items ! i = item"
      by (auto simp: in_set_enumerate_eq)
    from a obtain nm where nm: "resolvedName item = Some nm"
      by (cases "resolvedName item") (auto simp: truthy_def)
    have split: "items = take i items @ item # drop (Suc i) items"
      using i it by (metis id_take_nth_drop)
    from a nm obtain y where y: "y \<in> set (take i items)" "resolvedName y = Some nm"
      by auto
    then have "nm \<in> set (List.map_filter resolvedName (take i items))"
      by (auto simp: map_filter_def image_iff intro!: bexI[of _ y])
    moreover have "List.map_filter resolvedName items =
        List.map_filter resolvedName (take i items) @ nm # List.map_filter resolvedName (drop (Suc i) items)"
      by (subst split) (simp add: map_filter_def nm)
    ultimately show False using assms by auto
  qed
  then show ?thesis by (auto simp: filter_empty_conv)
qed

text \<open>
  C9. The "referenced multiple times" warnings of \<open>checkNavigation\<close> are, in order, one on
  every item whose resolved screen name is non-empty and is also the resolved name of an
  earlier item: every repeated reference after the first gets one warning, the first gets
  none. (Screen names are \<open>ID\<close>s, so a resolved name is never empty.) When the names of the
  resolved items are pairwise distinct there is no such warning.
\<close>

theorem C9_checkNavigation_repeated_screen:
  "filter is_multipleReference (checkNavigation nav) =
     map (\<lambda>(i, item). multipleReferenceWarning i item)
       (filter (\<lambda>(i, item). truthy (resolvedName item)
                  \<and> resolvedName item \<in> set (map resolvedName (take i (nav_items nav))))
          (enumerate 0 (nav_items nav)))
   \<and> (distinct (List.map_filter resolvedName (nav_items nav))
        \<longrightarrow> filter is_multipleReference (checkNavigation nav) = [])"
  using checkNavigation_multiple[of nav] distinct_no_multiple[of "nav_items nav"]
  by simp

theorem C9_checkNavigation_repeated_screen_witness:
  "distinct (List.map_filter resolvedName (nav_items (example_navigation [''Home'', ''Accounts''])))
   \<and> filter is_multipleReference (checkNavigation (example_navigation [''Home'', ''Accounts''])) = []
   \<and> filter is_multipleReference
        (checkNavigation (example_navigation [''Home'', ''Accounts'', ''Home'', ''Home''])) =
      [multipleReferenceWarning 2 (navItemTo ''Home''), multipleReferenceWarning 3 (navItemTo ''Home'')]"
proof -
  have d: "distinct (List.map_filter resolvedName (nav_items (example_navigation [''Home'', ''Accounts''])))"
    by (simp add: example_navigation_def navItemTo_def resolvedName_def example_screen_def
          map_filter_def)
  have r: "filter is_multipleReference
        (checkNavigation (example_navigation [''Home'', ''Accounts'', ''Home'', ''Home''])) =
      [multipleReferenceWarning 2 (navItemTo ''Home''), multipleReferenceWarning 3 (navItemTo ''Home'')]"
    using C9_checkNavigation_repeated_screen
            [of "example_navigation [''Home'', ''Accounts'', ''Home'', ''Home'']"]
    by (simp add: example_navigation_def navItemTo_def resolvedName_def example_screen_def
          truthy_def eval_nat_numeral)
  from C9_checkNavigation_repeated_screen[of "example_navigation [''Home'', ''Accounts'']"] d r
  show ?thesis by blast
qed

section \<open>Path parameters (\<open>checkAPI\<close>)\<close>

lemma pathParamMessage_inj [simp]: "pathParamMessage a = pathParamMessage b \<longleftrightarrow> a = b"
  by (simp add: pathParamMessage_def)

lemma count_param_errors:
  "length (filter (is_pathParamError i p)
     (concat (map (\<lambda>pathParam.
                      if pathParam \<notin> set defs
                      then [accept ErrorSeverity (pathParamMessage pathParam)
                              (EndpointNode j) (Some ''path'')]
                      else []) pps)))
   = (if i = j \<and> p \<notin> set defs then count_list pps p else 0)"
  by (induction pps) (auto simp: is_pathParamError_def accept_def)

lemma not_pathParamError_warning: "\<not> is_pathParamError i p (accept WarningSeverity m n q)"
  by (simp add: is_pathParamError_def accept_def)

lemma checkEndpoint_count:
  "length (filter (is_pathParamError i p) (checkEndpoint j e)) =
     (if i = j \<and> p \<notin> set (definedParams e) then count_list (pathParams (ep_path e)) p else 0)"
proof -
  have "filter (is_pathParamError i p) (checkEndpoint j e) =
        filter (is_pathParamError i p)
          (concat (map (\<lambda>pathParam.
                      if pathParam \<notin> set (definedParams e)
                      then [accept ErrorSeverity (pathParamMessage pathParam)
                              (EndpointNode j) (Some ''path'')]
                      else []) (pathParams (ep_path e))))"
    by (simp add: checkEndpoint_def not_pathParamError_warning)
  then show ?thesis
    by (simp only: count_param_errors)
qed

lemma duplicateIdLoop_no_pathParamError:
  "filter (is_pathParamError i p) (duplicateIdLoop xs S) = []"
  by (induction xs S rule: duplicateIdLoop.induct)
     (auto simp: is_pathParamError_def accept_def pathParamMessage_def)

lemma concat_endpoints_count:
  "length (filter (is_pathParamError i p)
      (concat (map (\<lambda>(j, e). checkEndpoint j e) (enumerate n eps)))) =
     (if n \<le> i \<and> i < n + length eps \<and> p \<notin> set (definedParams (eps ! (i - n)))
      then count_list (pathParams (ep_path (eps ! (i - n)))) p else 0)"
proof (induction eps arbitrary: n)
  case Nil
  then show ?case by simp
next
  case (Cons e eps)
  have split: "length (filter (is_pathParamError i p)
      (concat (map (\<lambda>(j, e). checkEndpoint j e) (enumerate n (e # eps))))) =
      length (filter (is_pathParamError i p) (checkEndpoint n e))
      + length (filter (is_pathParamError i p)
          (concat (map (\<lambda>(j, e). checkEndpoint j e) (enumerate (Suc n) eps))))"
    by simp
  show ?case
  proof (cases "i = n")
    case True
    show ?thesis unfolding split Cons.IH checkEndpoint_count using True by simp
  next
    case False
    have nth: "(e # eps) ! (i - n) = eps ! (i - Suc n)" if "Suc n \<le> i"
    proof -
      from that have "i - n = Suc (i - Suc n)" by simp
      then show ?thesis by simp
    qed
    show ?thesis unfolding split Cons.IH checkEndpoint_count using False nth by auto
  qed
qed

lemma checkAPI_count:
  assumes "i < length (aa_endpoints api)"
  shows "length (filter (is_pathParamError i p) (checkAPI api)) =
     (if p \<in> set (definedParams (aa_endpoints api ! i)) then 0
      else count_list (pathParams (ep_path (aa_endpoints api ! i))) p)"
proof -
  have "filter (is_pathParamError i p) (checkAPI api) =
        filter (is_pathParamError i p)
          (concat (map (\<lambda>(j, e). checkEndpoint j e) (enumerate 0 (aa_endpoints api))))"
    by (simp add: checkAPI_def duplicateIdLoop_no_pathParamError not_pathParamError_warning)
  then show ?thesis
    using assms by (simp only: concat_endpoints_count) simp
qed

text \<open>
  C7, as the code has it. For the endpoint at index \<open>i\<close> of an API and every name \<open>p\<close>,
  \<open>checkAPI\<close> accepts the error "Path parameter "p" is not defined in the endpoint
  parameters." once for every \<open>{p}\<close> token of the endpoint's path (the matches of
  \<open>/\{([^}]+)\}/g\<close>, from left to right) when the endpoint declares no parameter named \<open>p\<close>, and
  never when it declares one. So a path with one such token gets exactly one error, and a
  path that repeats the token gets one error per occurrence.
\<close>

theorem C7_checkAPI_path_parameters:
  "i < length (aa_endpoints api) \<Longrightarrow>
   length (filter (is_pathParamError i p) (checkAPI api)) =
     (if p \<in> set (definedParams (aa_endpoints api ! i)) then 0
      else count_list (pathParams (ep_path (aa_endpoints api ! i))) p)"
  by (rule checkAPI_count)

theorem C7_checkAPI_path_parameters_witness:
  "0 < length (aa_endpoints (example_api [example_endpoint ''/accounts/{id}/transactions'' ''GET'' []]))
   \<and> length (filter (is_pathParamError 0 ''id'')
        (checkAPI (example_api [example_endpoint ''/accounts/{id}/transactions'' ''GET'' []]))) = 1
   \<and> length (filter (is_pathParamError 0 ''id'')
        (checkAPI (example_api [example_endpoint ''/accounts/{id}/transactions'' ''GET'' [''id'']]))) = 0"
proof -
  have p: "pathParams ''/accounts/{id}/transactions'' = [''id'']"
    by code_simp
  have a: "length (filter (is_pathParamError 0 ''id'')
        (checkAPI (example_api [example_endpoint ''/accounts/{id}/transactions'' ''GET'' []]))) = 1"
    using C7_checkAPI_path_parameters
            [of 0 "example_api [example_endpoint ''/accounts/{id}/transactions'' ''GET'' []]" "''id''"]
    by (simp add: example_api_def example_endpoint_def definedParams_def p)
  have b: "length (filter (is_pathParamError 0 ''id'')
        (checkAPI (example_api [example_endpoint ''/accounts/{id}/transactions'' ''GET'' [''id'']]))) = 0"
    using C7_checkAPI_path_parameters
            [of 0 "example_api [example_endpoint ''/accounts/{id}/transactions'' ''GET'' [''id'']]" "''id''"]
    by (simp add: example_api_def example_endpoint_def definedParams_def)
  from a b show ?thesis by (simp add: example_api_def)
qed

text \<open>
  C7 as stated fails: the path \<open>/a/{id}/b/{id}\<close> contains the token \<open>{id}\<close>, the endpoint
  declares no parameter, and \<open>checkAPI\<close> accepts two errors for \<open>id\<close>, not exactly one.
\<close>

theorem C7_exactly_one_counterexample:
  "str_includes ''/a/{id}/b/{id}'' ''{id}''
   \<and> ''id'' \<notin> set (definedParams (example_endpoint ''/a/{id}/b/{id}'' ''GET'' []))
   \<and> length (filter (is_pathParamError 0 ''id'')
        (checkAPI (example_api [example_endpoint ''/a/{id}/b/{id}'' ''GET'' []]))) = 2"
  by code_simp

section \<open>The extractor of the second listing keeps every block\<close>

lemma match_group1_nonempty:
  assumes "match_group1 r s = Some x" and "filter is_group r = g # gs" and "1 \<le> item_min g"
  shows "x \<noteq> []"
proof -
  from assms(1) obtain m where e: "exec r s = Some m" and gm: "group m 1 = Some x"
    by (auto simp: match_group1_def split: option.splits)
  from exec_groups[OF e] assms(2) obtain c cs where c: "groups m = c # cs"
    and l: "item_min g \<le> length c"
    by (auto simp: list_all2_Cons1)
  from gm c have "x = c" by (simp add: group_def)
  with l assms(3) show ?thesis by auto
qed

lemma or_else_group1:
  assumes "filter is_group r = g # gs" and "1 \<le> item_min g"
  shows "or_else (match_group1 r s) d = (case match_group1 r s of None \<Rightarrow> d | Some x \<Rightarrow> x)"
proof (cases "match_group1 r s")
  case None
  then show ?thesis by (simp add: or_else_def)
next
  case (Some x)
  from match_group1_nonempty[OF Some assms] Some show ?thesis by (simp add: or_else_def)
qed

lemma block_name_truthy:
  assumes "search_from (nameRe @ rest) s j = Some rm"
    and "filter is_group nameRe = g # gs" and "1 \<le> item_min g"
  shows "\<exists>x. match_group1 nameRe (matched rm) = Some x \<and> x \<noteq> []"
proof -
  from exec_prefix_of_match[OF assms(1)] obtain m' where e: "exec nameRe (matched rm) = Some m'"
    by blast
  from exec_groups[OF e] assms(2) obtain c cs where c: "groups m' = c # cs"
    by (auto simp: list_all2_Cons1)
  then have "group m' 1 = Some c" by (simp add: group_def)
  with e have "match_group1 nameRe (matched rm) = Some c" by (simp add: match_group1_def)
  with match_group1_nonempty[OF this assms(2,3)] show ?thesis by blast
qed

lemma methodRe_groups: "filter is_group methodRe = [Grp (Rep CWord 1 True)]"
  by (simp add: methodRe_def lit_def)

lemma pathRe_groups: "filter is_group pathRe = [Grp (Rep (CNot [CChar dquote]) 1 True)]"
  by (simp add: pathRe_def lit_def)

lemma titleRe_groups: "filter is_group titleRe = [Grp (Rep (CNot [CChar dquote]) 1 True)]"
  by (simp add: titleRe_def lit_def)

lemma screenNameRe2_groups: "filter is_group screenNameRe2 = [Grp (Rep CWord 1 True)]"
  by (simp add: screenNameRe2_def lit_def)

lemma screenBlockRe_split:
  "screenBlockRe = screenNameRe2 @ [Rep CSpace 0 True, Chr (CChar CHR ''{''),
       Grp (Rep (CNot []) 0 False), Chr (CChar CHR ''}'')]"
  by (simp add: screenBlockRe_def screenNameRe2_def)

lemma endpointOfMatch2_defaults:
  "endpoint2_method (endpointOfMatch2 m) =
      (case match_group1 methodRe (match_text m) of None \<Rightarrow> ''GET'' | Some x \<Rightarrow> x)
   \<and> endpoint2_path (endpointOfMatch2 m) =
      (case match_group1 pathRe (match_text m) of None \<Rightarrow> [] | Some x \<Rightarrow> x)"
  by (simp add: endpointOfMatch2_def or_else_group1[OF methodRe_groups]
        or_else_group1[OF pathRe_groups])

lemma parseScreenMatch2_Some:
  assumes "rm \<in> set (matches_from screenBlockRe s 0)"
  shows "\<exists>sc. parseScreenMatch2 (src_of rm) = Some sc
     \<and> screen2_isInitial sc = str_includes (matched rm) ''initial''
     \<and> screen2_title sc = (case match_group1 titleRe (matched rm) of None \<Rightarrow> screen2_name sc | Some t \<Rightarrow> t)
     \<and> match_group1 screenNameRe2 (matched rm) = Some (screen2_name sc)"
proof -
  from matches_from_search[OF assms] obtain j where "search_from screenBlockRe s j = Some rm"
    by blast
  then have "search_from (screenNameRe2 @ [Rep CSpace 0 True, Chr (CChar CHR ''{''),
       Grp (Rep (CNot []) 0 False), Chr (CChar CHR ''}'')]) s j = Some rm"
    by (simp only: screenBlockRe_split)
  from block_name_truthy[OF this screenNameRe2_groups]
  obtain x where x: "match_group1 screenNameRe2 (matched rm) = Some x" "x \<noteq> []" by auto
  then have n: "or_else (Some x) [] = x" by (simp add: or_else_def)
  from x n show ?thesis
    by (simp add: parseScreenMatch2_def src_of_def truthy_def Let_def
          or_else_group1[OF titleRe_groups] split: option.splits)
qed

lemma list_all2_map_filter:
  assumes "\<And>x. x \<in> set xs \<Longrightarrow> \<exists>y. f x = Some y \<and> Q x y"
  shows "list_all2 Q xs (List.map_filter f xs)"
  using assms
proof (induction xs)
  case Nil
  then show ?case by (simp add: map_filter_simps)
next
  case (Cons x xs)
  from Cons.prems[of x] obtain y where "f x = Some y" "Q x y" by auto
  moreover from Cons have "list_all2 Q xs (List.map_filter f xs)" by simp
  ultimately show ?case by (simp add: map_filter_simps)
qed

lemma parseDirectScreens2_blocks:
  "list_all2 (\<lambda>m sc.
       screen2_isInitial sc = str_includes (match_text m) ''initial''
     \<and> screen2_title sc =
         (case match_group1 titleRe (match_text m) of None \<Rightarrow> screen2_name sc | Some t \<Rightarrow> t)
     \<and> match_group1 screenNameRe2 (match_text m) = Some (screen2_name sc))
     (findMatchesInSource sourceText (new_regexp screenBlockRe)) (parseDirectScreens2 sourceText)"
  unfolding parseDirectScreens2_def findMatchesInSource_eq
proof (rule list_all2_map_filter)
  fix x assume "x \<in> set (map src_of (matches_from screenBlockRe sourceText 0))"
  then obtain rm where rm: "rm \<in> set (matches_from screenBlockRe sourceText 0)" and x: "x = src_of rm"
    by auto
  from parseScreenMatch2_Some[OF rm] x
  show "\<exists>y. parseScreenMatch2 x = Some y \<and>
             (screen2_isInitial y = str_includes (match_text x) ''initial'' \<and>
             screen2_title y = (case match_group1 titleRe (match_text x) of None \<Rightarrow> screen2_name y | Some t \<Rightarrow> t) \<and>
             match_group1 screenNameRe2 (match_text x) = Some (screen2_name y))"
    by (simp add: src_of_def)
qed

lemma parseDirectScreens_fixed: "list_all (\<lambda>sc. \<not> screen_isInitial sc \<and> screen_title sc = screen_name sc) (parseDirectScreens sourceText)"
proof -
  have "\<not> screen_isInitial sc \<and> screen_title sc = screen_name sc" if "parseScreenMatch m = Some sc" for m sc
    using that by (auto simp: parseScreenMatch_def Let_def split: option.splits)
  then show ?thesis
    by (auto simp: parseDirectScreens_def list_all_iff map_filter_def)
qed

section \<open>Screens (\<open>parseDirectScreens\<close>)\<close>

text \<open>
  C2, as the code has it. The \<open>parseDirectScreens\<close> of the second listing returns one screen
  for every block \<open>screen NAME { ... }\<close> that \<open>findMatchesInSource\<close> finds, in order, none
  skipped; the screen's \<open>isInitial\<close> says whether \<open>initial\<close> occurs in the text of the block, its
  \<open>title\<close> is the group of \<open>/title\s*:\s*"([^"]+)"/\<close> in that text and the screen's name when the
  pattern has no match there, its name is the group of \<open>/screen\s+(\w+)/\<close>. The
  \<open>parseDirectScreens\<close> of the first listing reads neither: every screen it returns has
  \<open>isInitial = false\<close> and the name as title.
\<close>

theorem C2_parseDirectScreens_initial_title:
  "list_all2 (\<lambda>m sc.
       screen2_isInitial sc = str_includes (match_text m) ''initial''
     \<and> screen2_title sc =
         (case match_group1 titleRe (match_text m) of None \<Rightarrow> screen2_name sc | Some t \<Rightarrow> t)
     \<and> match_group1 screenNameRe2 (match_text m) = Some (screen2_name sc))
     (findMatchesInSource sourceText (new_regexp screenBlockRe)) (parseDirectScreens2 sourceText)
   \<and> list_all (\<lambda>sc. \<not> screen_isInitial sc \<and> screen_title sc = screen_name sc)
        (parseDirectScreens sourceText)"
  using parseDirectScreens2_blocks parseDirectScreens_fixed by blast

theorem C2_parseDirectScreens_initial_title_witness:
  "parseDirectScreens2 screenSource =
     [\<lparr>screen2_name = ''Home'', screen2_isInitial = True, screen2_title = ''Start''\<rparr>,
      \<lparr>screen2_name = ''Other'', screen2_isInitial = False, screen2_title = ''Other''\<rparr>]
   \<and> list_all2 (\<lambda>m sc.
       screen2_isInitial sc = str_includes (match_text m) ''initial''
     \<and> screen2_title sc =
         (case match_group1 titleRe (match_text m) of None \<Rightarrow> screen2_name sc | Some t \<Rightarrow> t)
     \<and> match_group1 screenNameRe2 (match_text m) = Some (screen2_name sc))
     (findMatchesInSource screenSource (new_regexp screenBlockRe)) (parseDirectScreens2 screenSource)"
proof -
  have e: "parseDirectScreens2 screenSource =
     [\<lparr>screen2_name = ''Home'', screen2_isInitial = True, screen2_title = ''Start''\<rparr>,
      \<lparr>screen2_name = ''Other'', screen2_isInitial = False, screen2_title = ''Other''\<rparr>]"
    by code_simp
  from C2_parseDirectScreens_initial_title[of screenSource] e show ?thesis by blast
qed

text \<open>
  C2 as stated fails on the first listing: the block \<open>screen Home { title: "Start" initial }\<close>
  contains \<open>initial\<close> and a title, and its screen has \<open>isInitial = false\<close> and the title \<open>Home\<close>.
\<close>

theorem C2_first_listing_counterexample:
  "map match_text (findMatchesInSource screenSource (new_regexp screenBlockRe)) =
     [''screen Home { title: \"Start\" initial }'', ''screen Other { layout: { }'']
   \<and> str_includes ''screen Home { title: \"Start\" initial }'' ''initial''
   \<and> match_group1 titleRe ''screen Home { title: \"Start\" initial }'' = Some ''Start''
   \<and> map (\<lambda>sc. (screen_name sc, screen_isInitial sc, screen_title sc))
         (parseDirectScreens screenSource) =
     [(Some ''Home'', False, Some ''Home''), (Some ''Other'', False, Some ''Other'')]"
  by code_simp

section \<open>Models (\<open>parseDirectModels\<close>)\<close>

text \<open>
  C3, as the code has it. From \<open>model M { a: string required\nb: number default: 5 }\<close> the
  \<open>parseDirectModels\<close> of the first listing returns exactly one model, named \<open>M\<close>, with exactly
  the properties \<open>a\<close> (type \<open>string\<close>, required, no default, no enum values) and \<open>b\<close> (type
  \<open>number\<close>, not required, default \<open>5\<close>), in this order. The \<open>parseDirectModels\<close> of the second
  listing splits each line at its colons and keeps the first two parts: it returns the model
  \<open>M\<close> with \<open>a\<close> of type \<open>string required\<close> and \<open>b\<close> of type \<open>number default\<close>, and records neither
  a required mark nor a default.
\<close>

theorem C3_parseDirectModels_round_trip:
  "parseDirectModels roundTripSource =
     Inr [\<lparr>model_name = Some ''M'',
           properties =
             [\<lparr>prop_name = Some ''a'', prop_type = Some ''string'', isRequired = True,
               attributes = ''required'', enumValues = None, defaultValue = None\<rparr>,
              \<lparr>prop_name = Some ''b'', prop_type = Some ''number'', isRequired = False,
               attributes = ''default: 5'', enumValues = None, defaultValue = Some ''5''\<rparr>]\<rparr>]
   \<and> parseDirectModels2 roundTripSource =
     [\<lparr>model2_name = ''M'',
       model2_properties =
         [\<lparr>property2_name = ''a'', property2_type = ''string required''\<rparr>,
          \<lparr>property2_name = ''b'', property2_type = ''number default''\<rparr>]\<rparr>]"
  by code_simp

theorem C3_parseDirectModels_round_trip_witness:
  "(case parseDirectModels roundTripSource of
      Inl e \<Rightarrow> []
    | Inr ms \<Rightarrow> map (\<lambda>m. (model_name m, map (\<lambda>p. (prop_name p, isRequired p, defaultValue p))
                               (properties m))) ms) =
     [(Some ''M'', [(Some ''a'', True, None), (Some ''b'', False, Some ''5'')])]"
  using C3_parseDirectModels_round_trip by simp

text \<open>
  C3 as stated fails on the second listing: the types it returns are \<open>string required\<close> and
  \<open>number default\<close>, not \<open>string\<close> and \<open>number\<close>.
\<close>

theorem C3_second_listing_counterexample:
  "map (\<lambda>m. map property2_type (model2_properties m)) (parseDirectModels2 roundTripSource) =
     [[''string required'', ''number default'']]"
  by code_simp

section \<open>The reconciler (\<open>processFinAppFile\<close>)\<close>








section \<open>The extractor never throws\<close>

text \<open>
  C5. For every source text \<open>parseDirectModels\<close> returns a list of models: its two method
  calls on a group (\<open>propMatch[3].trim()\<close>, \<open>enumMatch[1].split(',')\<close>) never meet \<open>undefined\<close>.
  \<open>parseDirectScreens\<close> and \<open>parseDirectApi\<close> have no statement that can throw, and all loops
  end (each function is total). Without a match the results are empty: no model block gives
  no model, no screen block no screen, no API section \<open>undefined\<close>. A block without a name or
  without its closing brace is skipped and the blocks after it are kept.
\<close>

theorem C5_extraction_never_throws:
  "(\<exists>ms. parseDirectModels sourceText = Inr ms)
   \<and> (findMatchesInSource sourceText (new_regexp modelBlockRe) = []
        \<longrightarrow> parseDirectModels sourceText = Inr [])
   \<and> (findMatchesInSource sourceText (new_regexp screenBlockRe) = []
        \<longrightarrow> parseDirectScreens sourceText = [])
   \<and> (exec apiRe sourceText = None \<longrightarrow> parseDirectApi sourceText = None)"
  by (simp add: parseModelMatches_returns parseDirectModels_def parseDirectScreens_def
        parseDirectApi_def map_filter_simps)

theorem C5_extraction_never_throws_witness:
  "findMatchesInSource [] (new_regexp modelBlockRe) = []
   \<and> findMatchesInSource [] (new_regexp screenBlockRe) = []
   \<and> exec apiRe [] = None
   \<and> parseDirectModels [] = Inr [] \<and> parseDirectScreens [] = [] \<and> parseDirectApi [] = None
   \<and> parseDirectModels ''model { a: string } model N { id: string required }'' =
        Inr [\<lparr>model_name = Some ''N'',
              properties = [\<lparr>prop_name = Some ''id'', prop_type = Some ''string'',
                isRequired = True, attributes = ''required'', enumValues = None,
                defaultValue = None\<rparr>]\<rparr>]
   \<and> parseDirectModels ''model M { a: string'' = Inr []
   \<and> map screen_name (parseDirectScreens ''screen { title: \"T\" } screen S { initial }'') =
        [Some ''S'']
   \<and> parseDirectApi ''api { endpoint e { path: \"/p\" method: GET } }'' = None"
proof -
  have h: "findMatchesInSource [] (new_regexp modelBlockRe) = []
     \<and> findMatchesInSource [] (new_regexp screenBlockRe) = []
     \<and> exec apiRe [] = None"
    by code_simp
  have e: "parseDirectModels ''model { a: string } model N { id: string required }'' =
        Inr [\<lparr>model_name = Some ''N'',
              properties = [\<lparr>prop_name = Some ''id'', prop_type = Some ''string'',
                isRequired = True, attributes = ''required'', enumValues = None,
                defaultValue = None\<rparr>]\<rparr>]
     \<and> parseDirectModels ''model M { a: string'' = Inr []
     \<and> map screen_name (parseDirectScreens ''screen { title: \"T\" } screen S { initial }'') =
        [Some ''S'']
     \<and> parseDirectApi ''api { endpoint e { path: \"/p\" method: GET } }'' = None"
    by code_simp
  from C5_extraction_never_throws[of "[]"] h e show ?thesis by simp
qed

section \<open>The extractor is a function of the source text\<close>

lemma endpointLoop_eq:
  "endpointLoop s li acc = acc @ map endpoint_of (matches_from endpointRegex s li)"
proof (induction s li acc rule: endpointLoop.induct)
  case (1 s li acc)
  show ?case
  proof (cases "search_from endpointRegex s li")
    case None
    then show ?thesis
      by (simp add: endpointLoop.simps[of s li acc] matches_from.simps[of endpointRegex s li]
            regexp_exec_def)
  next
    case (Some m)
    from search_from_matched(1)[OF Some] have ne: "matched m \<noteq> []"
      by (auto simp: endpointRegex_min)
    have ex: "(Some m, \<lparr>source = endpointRegex, lastIndex = index m + length (matched m)\<rparr>)
              = regexp_exec \<lparr>source = endpointRegex, lastIndex = li\<rparr> s"
      using Some by (simp add: regexp_exec_def)
    from "1"[OF ex refl] Some ne show ?thesis
      by (simp add: endpointLoop.simps[of s li acc] matches_from.simps[of endpointRegex s li]
            regexp_exec_def endpoint_of_def)
  qed
qed

text \<open>
  C8. The only state of the extraction is \<open>lastIndex\<close> of the pattern objects, and every call
  creates its patterns anew. The loop of \<open>findMatchesInSource\<close> leaves a new pattern object as
  it was created, so a second run, even on the same object, returns the same matches. What
  the loops collect (the blocks of \<open>findMatchesInSource\<close>, the endpoints of \<open>parseDirectApi\<close>) is
  the list of the matches of the pattern in the text from left to right: each match starts
  after the one before it and not before its end, so the entries are in source order and no
  block is entered twice.
\<close>

theorem C8_extraction_deterministic:
  "snd (findMatches_loop sourceText (new_regexp r) []) = new_regexp r
   \<and> findMatches_loop sourceText (snd (findMatches_loop sourceText (new_regexp r) [])) []
       = findMatches_loop sourceText (new_regexp r) []
   \<and> findMatchesInSource sourceText (new_regexp r) = map src_of (matches_from r sourceText 0)
   \<and> endpointLoop sourceText 0 [] = map endpoint_of (matches_from endpointRegex sourceText 0)
   \<and> sorted_wrt before (matches_from r sourceText 0)"
  by (simp add: findMatches_loop_eq new_regexp_def findMatchesInSource_def endpointLoop_eq
        matches_from_sorted)

theorem C8_extraction_deterministic_witness:
  "findMatchesInSource screenSource (new_regexp screenBlockRe) =
     [\<lparr>match_start = 0, match_end = 38, match_text = ''screen Home { title: \"Start\" initial }''\<rparr>,
      \<lparr>match_start = 39, match_end = 65, match_text = ''screen Other { layout: { }''\<rparr>]
   \<and> snd (findMatches_loop screenSource (new_regexp screenBlockRe) []) = new_regexp screenBlockRe
   \<and> sorted_wrt before (matches_from screenBlockRe screenSource 0)"
proof -
  have e: "findMatchesInSource screenSource (new_regexp screenBlockRe) =
     [\<lparr>match_start = 0, match_end = 38, match_text = ''screen Home { title: \"Start\" initial }''\<rparr>,
      \<lparr>match_start = 39, match_end = 65, match_text = ''screen Other { layout: { }''\<rparr>]"
    by code_simp
  from C8_extraction_deterministic[of screenSource screenBlockRe] e show ?thesis by blast
qed

section \<open>Endpoints of the second listing (\<open>parseDirectApi\<close>)\<close>

lemma parseDirectApi2_defaults:
  "parseDirectApi2 sourceText = Some a \<Longrightarrow>
     list_all2 (\<lambda>m e.
         endpoint2_method e =
           (case match_group1 methodRe (match_text m) of None \<Rightarrow> ''GET'' | Some x \<Rightarrow> x)
         \<and> endpoint2_path e =
           (case match_group1 pathRe (match_text m) of None \<Rightarrow> [] | Some x \<Rightarrow> x))
       (findMatchesInSource sourceText (new_regexp endpointBlockRe)) (api2_endpoints a)"
proof -
  assume "parseDirectApi2 sourceText = Some a"
  then have "api2_endpoints a =
      map endpointOfMatch2 (findMatchesInSource sourceText (new_regexp endpointBlockRe))"
    by (auto simp: parseDirectApi2_def split: option.splits)
  then show ?thesis
    by (simp add: list_all2_map2 list.rel_refl endpointOfMatch2_defaults)
qed

text \<open>
  C10. When the second listing's \<open>parseDirectApi\<close> finds an API section, its endpoints are,
  in order, one for every block \<open>endpoint NAME { ... }\<close> that \<open>findMatchesInSource\<close> finds, none
  skipped; the method of an endpoint is the group of \<open>/method\s*:\s*(\w+)/\<close> in the text of its
  block and \<open>GET\<close> when the pattern has no match there, its path is the group of
  \<open>/path\s*:\s*"([^"]+)"/\<close> and the empty string when that pattern has no match.
\<close>

theorem C10_parseDirectApi_endpoint_defaults:
  "parseDirectApi2 sourceText = Some a \<Longrightarrow>
     list_all2 (\<lambda>m e.
         endpoint2_method e =
           (case match_group1 methodRe (match_text m) of None \<Rightarrow> ''GET'' | Some x \<Rightarrow> x)
         \<and> endpoint2_path e =
           (case match_group1 pathRe (match_text m) of None \<Rightarrow> [] | Some x \<Rightarrow> x))
       (findMatchesInSource sourceText (new_regexp endpointBlockRe)) (api2_endpoints a)"
  by (rule parseDirectApi2_defaults)

theorem C10_parseDirectApi_endpoint_defaults_witness:
  "parseDirectApi2 apiSource =
     Some \<lparr>api2_baseUrl = Some ''u'',
           api2_endpoints =
             [\<lparr>endpoint2_name = ''x'', endpoint2_path = ''/p'', endpoint2_method = ''POST''\<rparr>,
              \<lparr>endpoint2_name = ''y'', endpoint2_path = [], endpoint2_method = ''GET''\<rparr>]\<rparr>
   \<and> map (\<lambda>m. (match_group1 pathRe (match_text m), match_group1 methodRe (match_text m)))
        (findMatchesInSource apiSource (new_regexp endpointBlockRe)) =
       [(Some ''/p'', Some ''POST''), (None, None)]
   \<and> list_all2 (\<lambda>m e.
         endpoint2_method e =
           (case match_group1 methodRe (match_text m) of None \<Rightarrow> ''GET'' | Some x \<Rightarrow> x)
         \<and> endpoint2_path e =
           (case match_group1 pathRe (match_text m) of None \<Rightarrow> [] | Some x \<Rightarrow> x))
       (findMatchesInSource apiSource (new_regexp endpointBlockRe))
       [\<lparr>endpoint2_name = ''x'', endpoint2_path = ''/p'', endpoint2_method = ''POST''\<rparr>,
        \<lparr>endpoint2_name = ''y'', endpoint2_path = [], endpoint2_method = ''GET''\<rparr>]"
proof -
  have e: "parseDirectApi2 apiSource =
     Some \<lparr>api2_baseUrl = Some ''u'',
           api2_endpoints =
             [\<lparr>endpoint2_name = ''x'', endpoint2_path = ''/p'', endpoint2_method = ''POST''\<rparr>,
              \<lparr>endpoint2_name = ''y'', endpoint2_path = [], endpoint2_method = ''GET''\<rparr>]\<rparr>"
    by code_simp
  have g: "map (\<lambda>m. (match_group1 pathRe (match_text m), match_group1 methodRe (match_text m)))
        (findMatchesInSource apiSource (new_regexp endpointBlockRe)) =
       [(Some ''/p'', Some ''POST''), (None, None)]"
    by code_simp
  from C10_parseDirectApi_endpoint_defaults[OF e] e g show ?thesis by simp
qed

end
